theory Spec2Isabelle
  imports Main "HOL-Library.Sublist"
begin

text \<open>
  A model of \<open>browser-server/server.py\<close>, the PicoClaw browser server: the pipeline
  behind \<open>/ask\<close> and \<open>/api/intel\<close> (search, merge, selection by the language model,
  scraping, assembly of the context, truncation of the facts to a byte budget). What
  the server asks of the network (search backends, fetcher, language model, price API)
  is a field of the record \<open>world\<close>; an exception is a value; the activity log and the
  elapsed time of a response are left out.
\<close>

section \<open>Python strings, bytes and errors\<close>

text \<open>
  A Python \<open>str\<close> is a sequence of code points and a \<open>bytes\<close> object a sequence of
  octets; both are lists of naturals here. A code point is below \<open>0x110000\<close>; the
  surrogates \<open>0xD800..0xDFFF\<close> are code points a \<open>str\<close> can hold (a JSON escape
  produces them) but that UTF-8 cannot encode.
\<close>

type_synonym pystr = "nat list"
type_synonym pybytes = "nat list"

text \<open>
  The exceptions of the model: of \<open>str.encode\<close>, of indexing a list, of \<open>int\<close> on
  too long a string, of an operation on a value that is not a string, and of a
  collaborator (with its message).
\<close>

datatype py_error =
  UnicodeEncodeError | IndexError | ValueError | TypeError | AttributeError
  | UpstreamError pystr

text \<open>A string literal of the source, as code points.\<close>

definition lit :: "string \<Rightarrow> pystr" where
  "lit s = map of_char s"

definition is_surrogate :: "nat \<Rightarrow> bool" where
  "is_surrogate c = (0xD800 \<le> c \<and> c \<le> 0xDFFF)"

definition encodable :: "nat \<Rightarrow> bool" where
  "encodable c = (c < 0x110000 \<and> \<not> is_surrogate c)"

subsection \<open>\<open>str.encode("utf-8")\<close>\<close>

definition utf8_char :: "nat \<Rightarrow> pybytes" where
  "utf8_char c =
     (if c < 0x80 then [c]
      else if c < 0x800 then [0xC0 + c div 64, 0x80 + c mod 64]
      else if c < 0x10000 then
        [0xE0 + c div 4096, 0x80 + (c div 64) mod 64, 0x80 + c mod 64]
      else
        [0xF0 + c div 262144, 0x80 + (c div 4096) mod 64,
         0x80 + (c div 64) mod 64, 0x80 + c mod 64])"

fun utf8_encode :: "pystr \<Rightarrow> py_error + pybytes" where
  "utf8_encode [] = Inr []"
| "utf8_encode (c # cs) =
     (if \<not> encodable c then Inl UnicodeEncodeError
      else (case utf8_encode cs of
              Inl e \<Rightarrow> Inl e
            | Inr bs \<Rightarrow> Inr (utf8_char c @ bs)))"

subsection \<open>\<open>bytes.decode("utf-8", errors="ignore")\<close>\<close>

text \<open>
  The decoder of CPython, with the \<open>ignore\<close> handler: an invalid start byte is
  skipped; after an invalid continuation byte the bytes read so far are skipped and
  decoding resumes at the offending byte; a sequence cut by the end of the data is
  dropped.
\<close>

definition is_cont :: "nat \<Rightarrow> bool" where
  "is_cont b = (0x80 \<le> b \<and> b < 0xC0)"

fun utf8_decode_ignore :: "pybytes \<Rightarrow> pystr" where
  "utf8_decode_ignore [] = []"
| "utf8_decode_ignore (ch # s) =
     (if ch < 0x80 then ch # utf8_decode_ignore s
      else if ch < 0xC2 then utf8_decode_ignore s
      else if ch < 0xE0 then
        (case s of
           [] \<Rightarrow> []
         | ch2 # s2 \<Rightarrow>
             if \<not> is_cont ch2 then utf8_decode_ignore s
             else ((ch mod 32) * 64 + ch2 mod 64) # utf8_decode_ignore s2)
      else if ch < 0xF0 then
        (case s of
           [] \<Rightarrow> []
         | ch2 # s2 \<Rightarrow>
             if \<not> is_cont ch2 \<or> (if ch2 < 0xA0 then ch = 0xE0 else ch = 0xED)
             then utf8_decode_ignore s
             else (case s2 of
                     [] \<Rightarrow> []
                   | ch3 # s3 \<Rightarrow>
                       if \<not> is_cont ch3 then utf8_decode_ignore s2
                       else ((ch mod 16) * 4096 + (ch2 mod 64) * 64 + ch3 mod 64)
                              # utf8_decode_ignore s3))
      else if ch < 0xF5 then
        (case s of
           [] \<Rightarrow> []
         | ch2 # s2 \<Rightarrow>
             if \<not> is_cont ch2 \<or> (if ch2 < 0x90 then ch = 0xF0 else ch = 0xF4)
             then utf8_decode_ignore s
             else (case s2 of
                     [] \<Rightarrow> []
                   | ch3 # s3 \<Rightarrow>
                       if \<not> is_cont ch3 then utf8_decode_ignore s2
                       else (case s3 of
                               [] \<Rightarrow> []
                             | ch4 # s4 \<Rightarrow>
                                 if \<not> is_cont ch4 then utf8_decode_ignore s3
                                 else ((ch mod 8) * 262144 + (ch2 mod 64) * 4096
                                         + (ch3 mod 64) * 64 + ch4 mod 64)
                                        # utf8_decode_ignore s4)))
      else utf8_decode_ignore s)"

subsection \<open>Slicing\<close>

text \<open>\<open>xs[:stop]\<close>: a negative \<open>stop\<close> counts from the end.\<close>

definition slice_to :: "'a list \<Rightarrow> int \<Rightarrow> 'a list" where
  "slice_to xs stop =
     (if stop < 0 then take (nat (int (length xs) + stop)) xs else take (nat stop) xs)"

section \<open>The byte-budget truncator\<close>

definition truncate_utf8 :: "pystr \<Rightarrow> int \<Rightarrow> py_error + pystr" where
  "truncate_utf8 text max_bytes =
     (case utf8_encode text of
        Inl e \<Rightarrow> Inl e
      | Inr encoded \<Rightarrow>
          if int (length encoded) \<le> max_bytes then Inr text
          else Inr (utf8_decode_ignore (slice_to encoded max_bytes)))"

text \<open>
  The longest prefix of a text whose encoding fits in \<open>n\<close> bytes: what the
  truncator is shown to compute for a budget that is not negative.
\<close>

fun fit_prefix :: "nat \<Rightarrow> pystr \<Rightarrow> pystr" where
  "fit_prefix n [] = []"
| "fit_prefix n (c # cs) =
     (if length (utf8_char c) \<le> n then c # fit_prefix (n - length (utf8_char c)) cs else [])"

section \<open>Text helpers of the Python runtime\<close>

text \<open>
  The Unicode tables behind \<open>str.lower\<close>, \<open>str.strip\<close> and the regular expression
  class \<open>\d\<close> are not part of the repository: they are parameters. \<open>py_decimal\<close>
  gives the value of a decimal digit (any script) and \<open>None\<close> for every other
  code point. So is the interpreter's limit on the number of digits that \<open>int\<close>
  converts (\<open>sys.get_int_max_str_digits()\<close>: 4300 unless configured, 0 for no limit,
  as in the interpreters that have none).
\<close>

record unicode_tables =
  py_lower :: "pystr \<Rightarrow> pystr"
  py_isspace :: "nat \<Rightarrow> bool"
  py_decimal :: "nat \<Rightarrow> nat option"
  py_int_max_str_digits :: nat

text \<open>The ASCII part of the tables and the default limit, for concrete runs.\<close>

definition ascii_tables :: unicode_tables where
  "ascii_tables =
     \<lparr> py_lower = map (\<lambda>c. if 65 \<le> c \<and> c \<le> 90 then c + 32 else c),
       py_isspace = (\<lambda>c. c = 32 \<or> (9 \<le> c \<and> c \<le> 13)),
       py_decimal = (\<lambda>c. if 48 \<le> c \<and> c \<le> 57 then Some (c - 48) else None),
       py_int_max_str_digits = 4300 \<rparr>"

text \<open>\<open>needle in haystack\<close>\<close>

fun contains :: "pystr \<Rightarrow> pystr \<Rightarrow> bool" where
  "contains [] needle = (needle = [])"
| "contains (c # cs) needle = (prefix needle (c # cs) \<or> contains cs needle)"

text \<open>\<open>sep.join(parts)\<close>\<close>

fun join :: "pystr \<Rightarrow> pystr list \<Rightarrow> pystr" where
  "join sep [] = []"
| "join sep [x] = x"
| "join sep (x # y # ys) = x @ sep @ join sep (y # ys)"

text \<open>\<open>s.split(sep)\<close> for a separator of one character.\<close>

fun split_from :: "nat \<Rightarrow> pystr \<Rightarrow> pystr \<Rightarrow> pystr list" where
  "split_from sep cur [] = [rev cur]"
| "split_from sep cur (c # cs) =
     (if c = sep then rev cur # split_from sep [] cs else split_from sep (c # cur) cs)"

definition py_split :: "pystr \<Rightarrow> nat \<Rightarrow> pystr list" where
  "py_split s sep = split_from sep [] s"

definition strip :: "unicode_tables \<Rightarrow> pystr \<Rightarrow> pystr" where
  "strip T s = rev (dropWhile (py_isspace T) (rev (dropWhile (py_isspace T) s)))"

text \<open>\<open>re.findall(r"\d+", s)\<close>: the maximal runs of decimal digits, left to right.\<close>

fun findall_from :: "unicode_tables \<Rightarrow> pystr \<Rightarrow> pystr \<Rightarrow> pystr list" where
  "findall_from T cur [] = (if cur = [] then [] else [rev cur])"
| "findall_from T cur (c # cs) =
     (if py_decimal T c \<noteq> None then findall_from T (c # cur) cs
      else if cur = [] then findall_from T [] cs
      else rev cur # findall_from T [] cs)"

definition findall_digits :: "unicode_tables \<Rightarrow> pystr \<Rightarrow> pystr list" where
  "findall_digits T s = findall_from T [] s"

text \<open>
  \<open>int(tok)\<close> on a run of decimal digits: the value of the digits, or \<open>ValueError\<close>
  when the run has more digits than the limit (leading zeros count).
\<close>

definition digits_value :: "unicode_tables \<Rightarrow> pystr \<Rightarrow> int" where
  "digits_value T tok =
     foldl (\<lambda>acc c. acc * 10 + (case py_decimal T c of None \<Rightarrow> 0 | Some d \<Rightarrow> int d)) 0 tok"

definition py_int :: "unicode_tables \<Rightarrow> pystr \<Rightarrow> py_error + int" where
  "py_int T tok =
     (if 0 < py_int_max_str_digits T \<and> py_int_max_str_digits T < length tok
      then Inl ValueError
      else Inr (digits_value T tok))"

text \<open>
  \<open>xs[i]\<close>: an index from \<open>-len(xs)\<close> up to \<open>-1\<close> reads from the end, and
  any index outside \<open>[-len(xs), len(xs))\<close> raises.
\<close>

definition getitem :: "'a list \<Rightarrow> int \<Rightarrow> py_error + 'a" where
  "getitem xs i =
     (if 0 \<le> i \<and> i < int (length xs) then Inr (xs ! nat i)
      else if - int (length xs) \<le> i \<and> i < 0 then Inr (xs ! nat (int (length xs) + i))
      else Inl IndexError)"

text \<open>\<open>str(n)\<close> for an index.\<close>

function str_nat :: "nat \<Rightarrow> pystr" where
  "str_nat n = (if n < 10 then [48 + n] else str_nat (n div 10) @ [48 + n mod 10])"
  by pat_completeness auto
termination
  by (relation "measure id") auto

definition str_int :: "int \<Rightarrow> pystr" where
  "str_int i = (if i < 0 then 45 # str_nat (nat (- i)) else str_nat (nat i))"

section \<open>Search results and the outside world\<close>

text \<open>
  A search result is the dict built by \<open>_ddg_search\<close> (keys title, url, snippet,
  source) or by \<open>google_news_rss\<close> (keys title, url, date, source): title, url and
  source are always present, snippet and date are present in one of the two.
\<close>

record result =
  title :: pystr
  url :: pystr
  snippet :: "pystr option"
  date :: "pystr option"
  source :: pystr

text \<open>\<open>r.get(key, '')\<close> and the truth value of \<open>r.get(key)\<close>.\<close>

definition get_or_empty :: "pystr option \<Rightarrow> pystr" where
  "get_or_empty v = (case v of None \<Rightarrow> [] | Some t \<Rightarrow> t)"

definition truthy :: "pystr option \<Rightarrow> bool" where
  "truthy v = (case v of None \<Rightarrow> False | Some t \<Rightarrow> t \<noteq> [])"

text \<open>What an awaited call gives: a value, or an exception.\<close>

datatype 'a outcome = Returned 'a | Raised py_error

text \<open>
  \<open>get_crypto_price\<close>: the request or the formatting of its numbers raises; the coin
  is unknown (the dict with key \<open>error\<close>); or the price and the 24h change, as the
  handler's format specification renders them (the rendering of floats is not modelled).
\<close>

datatype price_outcome = PriceFault py_error | PriceNotFound | PriceFound pystr pystr

text \<open>
  \<open>StealthyFetcher.fetch\<close> and the selection of text nodes inside \<open>_scrape_url\<close>: an
  exception inside its \<open>try\<close>, or the texts of the content selectors and the texts of
  \<open>body\<close>. A task can also fail outside \<open>_scrape_url\<close> (the executor).
\<close>

datatype fetch_outcome = FetchFault pystr | Fetched "pystr list" "pystr list"

datatype task_outcome = TaskFault py_error | Ran fetch_outcome

text \<open>
  \<open>chutes_chat\<close> returns the \<open>content\<close> field of the reply as the JSON holds it: a
  text, or a value that is not a string (\<open>None\<close> here: a JSON \<open>null\<close>, for one); or
  the request raises. The three calls differ by their system prompt and token limit.
\<close>

datatype llm_call = SelectCall | AnswerCall | FactsCall

record world =
  tables :: unicode_tables
  canister_api_key :: pystr
  now :: int
  get_crypto_price :: "pystr \<Rightarrow> price_outcome"
  ddg_search :: "pystr \<Rightarrow> nat \<Rightarrow> result list outcome"
  google_news_rss :: "pystr \<Rightarrow> nat \<Rightarrow> result list"
  chutes_chat :: "llm_call \<Rightarrow> pystr \<Rightarrow> pystr option outcome"
  fetch_task :: "nat \<Rightarrow> pystr \<Rightarrow> task_outcome"

section \<open>Scraping\<close>

definition extract_text :: "unicode_tables \<Rightarrow> pystr list \<Rightarrow> pystr list \<Rightarrow> pystr" where
  "extract_text T content_texts body_texts =
     (let texts = (if content_texts = [] then body_texts else content_texts);
          cleaned = map (strip T)
                      (filter (\<lambda>t. strip T t \<noteq> [] \<and> length (strip T t) > 5) texts)
      in take 6000 (join [10] cleaned))"

text \<open>\<open>_scrape_url\<close>: every exception of the fetch becomes a text that starts with \<open>Error\<close>.\<close>

definition scrape_url_sync :: "unicode_tables \<Rightarrow> fetch_outcome \<Rightarrow> pystr \<Rightarrow> pystr" where
  "scrape_url_sync T f u =
     (case f of
        Fetched content_texts body_texts \<Rightarrow> extract_text T content_texts body_texts
      | FetchFault e \<Rightarrow> lit ''Error scraping '' @ u @ lit '': '' @ e)"

text \<open>\<open>scrape_url\<close>: the \<open>i\<close>-th task of a request, run in the executor.\<close>

definition scrape_url :: "world \<Rightarrow> nat \<Rightarrow> pystr \<Rightarrow> pystr outcome" where
  "scrape_url w i u =
     (case fetch_task w i u of
        TaskFault e \<Rightarrow> Raised e
      | Ran f \<Rightarrow> Returned (scrape_url_sync (tables w) f u))"

text \<open>
  \<open>asyncio.gather(*[scrape_url(u) for u in scrape_urls], return_exceptions=True)\<close>: one
  outcome per task, in the order of the tasks, an exception being an outcome.
\<close>

fun scrape_from :: "world \<Rightarrow> nat \<Rightarrow> pystr list \<Rightarrow> pystr outcome list" where
  "scrape_from w i [] = []"
| "scrape_from w i (u # us) = scrape_url w i u # scrape_from w (Suc i) us"

definition scrape_batch :: "world \<Rightarrow> pystr list \<Rightarrow> pystr outcome list" where
  "scrape_batch w scrape_urls = scrape_from w 0 scrape_urls"

text \<open>
  The test of both pipelines on an outcome:
  \<open>isinstance(text, str) and not text.startswith("Error") and len(text) > 50\<close>.
\<close>

definition scrape_succeeded :: "pystr outcome \<Rightarrow> bool" where
  "scrape_succeeded p =
     (case p of
        Raised e \<Rightarrow> False
      | Returned text \<Rightarrow> \<not> prefix (lit ''Error'') text \<and> length text > 50)"

section \<open>Merging the two result lists\<close>

text \<open>
  The key of the deduplication, and the host of a source (lines 285, 435, 467, 519):
  \<open>url.split("/")[2] if len(url.split("/")) > 2 else url\<close>.
\<close>

definition host_of :: "pystr \<Rightarrow> pystr" where
  "host_of u = (if length (py_split u 47) > 2 then py_split u 47 ! 2 else u)"


text \<open>The loop over \<open>ddg_results + news_results\<close> (lines 279-288 and 461-470).\<close>

fun merge_loop :: "result list \<Rightarrow> pystr set \<Rightarrow> result list \<Rightarrow> result list" where
  "merge_loop [] seen_domains all_results = all_results"
| "merge_loop (r # rs) seen_domains all_results =
     (if url r = [] \<or> \<not> prefix (lit ''http'') (url r) then
        merge_loop rs seen_domains all_results
      else if host_of (url r) \<notin> seen_domains then
        merge_loop rs (insert (host_of (url r)) seen_domains) (all_results @ [r])
      else merge_loop rs seen_domains all_results)"

definition merge_results :: "result list \<Rightarrow> result list \<Rightarrow> result list" where
  "merge_results ddg_results news_results = merge_loop (ddg_results @ news_results) {} []"

section \<open>Selecting the pages\<close>

text \<open>
  The loop over the tokens of the reply (lines 312-316 and 486-490), \<open>n\<close> being
  \<open>len(all_results)\<close>; then the fallback and the cap (lines 318-321 and 491-493).
\<close>

fun pick_loop ::
  "unicode_tables \<Rightarrow> nat \<Rightarrow> pystr list \<Rightarrow> int list \<Rightarrow> py_error + int list" where
  "pick_loop T n [] picked = Inr picked"
| "pick_loop T n (tok # toks) picked =
     (case py_int T tok of
        Inl e \<Rightarrow> Inl e
      | Inr idx \<Rightarrow>
          if 0 \<le> idx \<and> idx < int n then pick_loop T n toks (picked @ [idx])
          else pick_loop T n toks picked)"

definition select_indices :: "unicode_tables \<Rightarrow> pystr \<Rightarrow> nat \<Rightarrow> py_error + int list" where
  "select_indices T pick_response n =
     (case pick_loop T n (findall_digits T pick_response) [] of
        Inl e \<Rightarrow> Inl e
      | Inr picked \<Rightarrow>
          (let picked = (if picked = [] then map int [0..<min 4 n] else picked)
           in Inr (take 5 picked)))"

text \<open>\<open>[all_results[i]["url"] for i in picked]\<close>\<close>

fun scrape_urls_of :: "result list \<Rightarrow> int list \<Rightarrow> py_error + pystr list" where
  "scrape_urls_of all_results [] = Inr []"
| "scrape_urls_of all_results (i # picked) =
     (case getitem all_results i of
        Inl e \<Rightarrow> Inl e
      | Inr r \<Rightarrow>
          (case scrape_urls_of all_results picked of
             Inl e \<Rightarrow> Inl e
           | Inr us \<Rightarrow> Inr (url r # us)))"

section \<open>Assembling the context\<close>

text \<open>The digest of the first ten candidates (lines 336 and 505).\<close>

definition snippet_digest :: "result list \<Rightarrow> pystr" where
  "snippet_digest all_results =
     join [10] (map (\<lambda>r. lit ''- '' @ title r @ lit '': '' @ get_or_empty (snippet r))
                    (take 10 all_results))"

text \<open>The block of one scraped page in \<open>/ask\<close> (line 333).\<close>

definition ask_block ::
  "result list \<Rightarrow> int list \<Rightarrow> pystr list \<Rightarrow> nat \<Rightarrow> pystr \<Rightarrow> py_error + pystr" where
  "ask_block all_results picked_indices scrape_urls i page_text =
     (case getitem picked_indices (int i) of
        Inl e \<Rightarrow> Inl e
      | Inr k \<Rightarrow>
          (case getitem all_results k of
             Inl e \<Rightarrow> Inl e
           | Inr r \<Rightarrow>
               (case getitem scrape_urls (int i) of
                  Inl e \<Rightarrow> Inl e
                | Inr u \<Rightarrow>
                    Inr ([10] @ lit ''--- ['' @ title r @ lit ''] '' @ u @ lit '' ---'' @ [10]
                         @ take 3000 page_text @ [10]))))"

fun ask_scraped_loop ::
  "result list \<Rightarrow> int list \<Rightarrow> pystr list \<Rightarrow> nat \<Rightarrow> pystr outcome list \<Rightarrow> pystr
   \<Rightarrow> py_error + pystr" where
  "ask_scraped_loop all_results picked_indices scrape_urls i [] scraped_content =
     Inr scraped_content"
| "ask_scraped_loop all_results picked_indices scrape_urls i (p # pages) scraped_content =
     (case p of
        Raised e \<Rightarrow>
          ask_scraped_loop all_results picked_indices scrape_urls (Suc i) pages scraped_content
      | Returned page_text \<Rightarrow>
          if \<not> prefix (lit ''Error'') page_text \<and> length page_text > 50 then
            (case ask_block all_results picked_indices scrape_urls i page_text of
               Inl e \<Rightarrow> Inl e
             | Inr block \<Rightarrow>
                 ask_scraped_loop all_results picked_indices scrape_urls (Suc i) pages
                   (scraped_content @ block))
          else
            ask_scraped_loop all_results picked_indices scrape_urls (Suc i) pages
              scraped_content)"

definition ask_context :: "pystr \<Rightarrow> result list \<Rightarrow> pystr \<Rightarrow> pystr" where
  "ask_context price_info all_results scraped_content =
     (let search_summary = snippet_digest all_results;
          context = price_info @ lit ''Search results summary:'' @ [10] @ search_summary
      in if scraped_content \<noteq> [] then
           context @ [10, 10] @ lit ''Scraped page content:'' @ scraped_content
         else context)"

text \<open>The block of one scraped page in \<open>/api/intel\<close> (line 502).\<close>

definition intel_block ::
  "result list \<Rightarrow> int list \<Rightarrow> pystr list \<Rightarrow> nat \<Rightarrow> pystr \<Rightarrow> py_error + pystr" where
  "intel_block all_results picked scrape_urls i text =
     (case getitem picked (int i) of
        Inl e \<Rightarrow> Inl e
      | Inr k \<Rightarrow>
          (case getitem all_results k of
             Inl e \<Rightarrow> Inl e
           | Inr r \<Rightarrow>
               (case getitem scrape_urls (int i) of
                  Inl e \<Rightarrow> Inl e
                | Inr u \<Rightarrow>
                    Inr ([10] @ lit ''['' @ title r @ lit ''] ('' @ u @ lit '')'' @ [10]
                         @ take 2500 text @ [10]))))"

fun intel_scraped_loop ::
  "result list \<Rightarrow> int list \<Rightarrow> pystr list \<Rightarrow> nat \<Rightarrow> pystr outcome list \<Rightarrow> pystr
   \<Rightarrow> py_error + pystr" where
  "intel_scraped_loop all_results picked scrape_urls i [] scraped = Inr scraped"
| "intel_scraped_loop all_results picked scrape_urls i (p # pages) scraped =
     (case p of
        Raised e \<Rightarrow> intel_scraped_loop all_results picked scrape_urls (Suc i) pages scraped
      | Returned text \<Rightarrow>
          if \<not> prefix (lit ''Error'') text \<and> length text > 50 then
            (case intel_block all_results picked scrape_urls i text of
               Inl e \<Rightarrow> Inl e
             | Inr block \<Rightarrow>
                 intel_scraped_loop all_results picked scrape_urls (Suc i) pages
                   (scraped @ block))
          else intel_scraped_loop all_results picked scrape_urls (Suc i) pages scraped)"

definition intel_compress_input :: "pystr \<Rightarrow> result list \<Rightarrow> pystr \<Rightarrow> pystr" where
  "intel_compress_input query all_results scraped =
     (let search_listing = snippet_digest all_results;
          compress_input = lit ''Question: '' @ query @ [10, 10] @ lit ''Search headlines:''
                           @ [10] @ search_listing
      in if scraped \<noteq> [] then compress_input @ [10, 10] @ lit ''Scraped pages:'' @ scraped
         else compress_input)"

section \<open>The live price\<close>

definition coin_of :: "pystr \<Rightarrow> pystr" where
  "coin_of q_lower =
     (if contains q_lower (lit ''eth'') \<or> contains q_lower (lit ''ethereum'') then lit ''ethereum''
      else if contains q_lower (lit ''sol'') \<or> contains q_lower (lit ''solana'') then lit ''solana''
      else lit ''bitcoin'')"

definition ask_price_info :: "world \<Rightarrow> pystr \<Rightarrow> pystr" where
  "ask_price_info w q =
     (let q_lower = py_lower (tables w) q
      in if list_ex (contains q_lower)
              (map lit [''price'', ''btc'', ''bitcoin'', ''eth'', ''ethereum'', ''sol'',
                        ''solana'', ''crypto''])
         then
           (case get_crypto_price w (coin_of q_lower) of
              PriceFound usd change \<Rightarrow>
                lit ''LIVE DATA: '' @ coin_of q_lower @ lit '' price is $'' @ usd
                @ lit '' USD (24h change: '' @ change @ lit ''%)'' @ [10, 10]
            | PriceNotFound \<Rightarrow> []
            | PriceFault e \<Rightarrow> [])
         else [])"

definition intel_price_prefix :: "world \<Rightarrow> pystr \<Rightarrow> pystr" where
  "intel_price_prefix w query =
     (let q_lower = py_lower (tables w) query
      in if list_ex (contains q_lower)
              (map lit [''price'', ''btc'', ''bitcoin'', ''eth'', ''ethereum'', ''sol'',
                        ''solana''])
         then
           (case get_crypto_price w (coin_of q_lower) of
              PriceFound usd change \<Rightarrow>
                coin_of q_lower @ lit '' $'' @ usd @ lit '' ('' @ change
                @ lit ''% 24h) (coingecko) | ''
            | PriceNotFound \<Rightarrow> []
            | PriceFault e \<Rightarrow> [])
         else [])"

section \<open>The prompts\<close>

definition ask_listing :: "result list \<Rightarrow> pystr" where
  "ask_listing all_results =
     join [10]
       (map (\<lambda>(i, r). lit ''['' @ str_nat i @ lit ''] '' @ title r @ lit '' | '' @ url r
                       @ (if truthy (snippet r) then lit '' | '' @ get_or_empty (snippet r)
                          else [])
                       @ (if truthy (date r) then lit '' | '' @ get_or_empty (date r) else []))
            (zip [0..<length all_results] all_results))"

definition ask_pick_prompt :: "pystr \<Rightarrow> result list \<Rightarrow> pystr" where
  "ask_pick_prompt q all_results =
     lit ''You are a research assistant. The user asked: '' @ [34] @ q @ [34, 10, 10]
     @ lit ''Here are search results:'' @ [10] @ ask_listing all_results @ [10, 10]
     @ lit ''Pick the 3-5 BEST URLs to scrape for answering the question. ''
     @ lit ''Choose pages most likely to contain actual data, facts, and details (not homepages or paywalled sites). ''
     @ lit ''Reply with ONLY the numbers, comma-separated. Example: 0,2,4,7'' @ [10]
     @ lit ''Numbers only, nothing else.''"

definition ask_answer_prompt :: "pystr \<Rightarrow> pystr \<Rightarrow> pystr" where
  "ask_answer_prompt q context =
     lit ''Answer this question using ALL the data below. Be thorough and factual. ''
     @ lit ''Include specific facts, numbers, names, dates from the scraped content. ''
     @ lit ''Cite which source each fact came from. ''
     @ lit ''If this is a news query, summarize each major story with key details.'' @ [10, 10]
     @ lit ''Question: '' @ q @ [10, 10] @ context"

definition intel_listing :: "result list \<Rightarrow> pystr" where
  "intel_listing all_results =
     join [10]
       (map (\<lambda>(i, r). lit ''['' @ str_nat i @ lit ''] '' @ title r @ lit '' | '' @ url r)
            (zip [0..<length all_results] all_results))"

definition intel_pick_prompt :: "pystr \<Rightarrow> result list \<Rightarrow> pystr" where
  "intel_pick_prompt query all_results =
     lit ''User asked: '' @ [34] @ query @ [34, 10, 10] @ lit ''Search results:'' @ [10]
     @ intel_listing all_results @ [10, 10]
     @ lit ''Pick 3-5 best URLs for real data (not homepages/paywalls). Reply numbers only, comma-separated.''"

definition intel_facts_prompt :: "pystr \<Rightarrow> int \<Rightarrow> pystr" where
  "intel_facts_prompt compress_input max_bytes =
     compress_input @ [10, 10] @ lit ''Extract ONLY facts that answer the question. ''
     @ lit ''Skip website UI, navigation, cookie/consent text, loading messages, disclaimers. ''
     @ lit ''Budget: '' @ str_int max_bytes @ lit '' chars.''"

definition intel_browse_prompt :: "pystr \<Rightarrow> pystr \<Rightarrow> int \<Rightarrow> pystr" where
  "intel_browse_prompt page_url text max_bytes =
     lit ''Extract key facts from this page ('' @ page_url @ lit ''):'' @ [10, 10]
     @ take 5000 text @ [10, 10] @ lit ''Budget: '' @ str_int max_bytes @ lit '' chars.''"

section \<open>The handler of \<open>/ask\<close>\<close>

text \<open>
  The handler up to the end of its step 3: the price line, the selected URLs and the
  scraped content, or the early return when nothing was found.
\<close>

datatype assembled = NoCandidates pystr | Assembled pystr "result list" "pystr list" pystr

definition ask_assemble :: "world \<Rightarrow> pystr \<Rightarrow> py_error + assembled" where
  "ask_assemble w q =
     (let price_info = ask_price_info w q
      in case ddg_search w q 10 of
           Raised e \<Rightarrow> Inl e
         | Returned ddg_results \<Rightarrow>
             (let news_results = google_news_rss w q 8;
                  all_results = merge_results ddg_results news_results
              in if all_results = [] then Inr (NoCandidates price_info)
                 else
                   (case chutes_chat w SelectCall (ask_pick_prompt q all_results) of
                      Raised e \<Rightarrow> Inl e
                    | Returned None \<Rightarrow> Inl TypeError
                    | Returned (Some pick_response) \<Rightarrow>
                        (case select_indices (tables w) pick_response (length all_results) of
                           Inl e \<Rightarrow> Inl e
                         | Inr picked_indices \<Rightarrow>
                             (case scrape_urls_of all_results picked_indices of
                                Inl e \<Rightarrow> Inl e
                              | Inr scrape_urls \<Rightarrow>
                                  (case ask_scraped_loop all_results picked_indices scrape_urls
                                          0 (scrape_batch w scrape_urls) [] of
                                     Inl e \<Rightarrow> Inl e
                                   | Inr scraped_content \<Rightarrow>
                                       Inr (Assembled price_info all_results scrape_urls
                                              scraped_content)))))))"

text \<open>
  The responses: the answer as the model's reply holds it (\<open>None\<close> when it is not a
  string) with the sources and their number; the answer when nothing was found; the
  response of status 500.
\<close>

datatype ask_response =
  AskAnswer "pystr option" "pystr list" nat
  | AskNoResults pystr
  | AskFailure py_error

definition ask :: "world \<Rightarrow> pystr \<Rightarrow> ask_response" where
  "ask w q =
     (case ask_assemble w q of
        Inl e \<Rightarrow> AskFailure e
      | Inr (NoCandidates price_info) \<Rightarrow>
          AskNoResults
            (if price_info \<noteq> [] then price_info @ lit ''No search results found for: '' @ q
             else lit ''No search results found for: '' @ q)
      | Inr (Assembled price_info all_results scrape_urls scraped_content) \<Rightarrow>
          (case chutes_chat w AnswerCall
                  (ask_answer_prompt q (ask_context price_info all_results scraped_content)) of
             Raised e \<Rightarrow> AskFailure e
           | Returned answer \<Rightarrow> AskAnswer answer scrape_urls (length scrape_urls)))"

section \<open>The handler of \<open>/api/intel\<close>\<close>

record intel_body =
  body_query :: "pystr option"
  body_mode :: "pystr option"
  body_url :: "pystr option"
  body_max_bytes :: "int option"

record intel_request =
  x_api_key :: "pystr option"
  json_body :: "intel_body option"

datatype failure_text = Message pystr | ExceptionText py_error

datatype intel_response =
  IntelFacts pystr "pystr list" int
  | IntelFailure nat failure_text

definition intel_price :: "world \<Rightarrow> pystr \<Rightarrow> intel_response" where
  "intel_price w query =
     (let coin = (if query \<noteq> [] then query else lit ''bitcoin'');
          q_lower = py_lower (tables w) coin;
          coin = (if contains q_lower (lit ''eth'') then lit ''ethereum''
                  else if contains q_lower (lit ''sol'') then lit ''solana''
                  else if contains q_lower (lit ''btc'') \<or> contains q_lower (lit ''bit'')
                  then lit ''bitcoin''
                  else coin)
      in case get_crypto_price w coin of
           PriceFault e \<Rightarrow> IntelFailure 500 (ExceptionText e)
         | PriceFound usd change \<Rightarrow>
             IntelFacts (coin @ lit '' $'' @ usd @ lit '' ('' @ change
                         @ lit ''% 24h) (coingecko)'')
               [lit ''coingecko.com''] (now w)
         | PriceNotFound \<Rightarrow>
             IntelFacts (lit ''Price not found for: '' @ coin) [lit ''coingecko.com''] (now w))"

definition intel_browse :: "world \<Rightarrow> pystr \<Rightarrow> int \<Rightarrow> intel_response" where
  "intel_browse w page_url max_bytes =
     (if page_url = [] then IntelFailure 400 (Message (lit ''missing url''))
      else
        (case scrape_url w 0 page_url of
           Raised e \<Rightarrow> IntelFailure 500 (ExceptionText e)
         | Returned text \<Rightarrow>
             if text = [] \<or> prefix (lit ''Error'') text then
               IntelFailure 200 (Message (lit ''scrape failed: '' @ take 200 text))
             else
               (case chutes_chat w FactsCall (intel_browse_prompt page_url text max_bytes) of
                  Raised e \<Rightarrow> IntelFailure 500 (ExceptionText e)
                | Returned None \<Rightarrow> IntelFailure 500 (ExceptionText AttributeError)
                | Returned (Some facts) \<Rightarrow>
                    (case truncate_utf8 facts max_bytes of
                       Inl e \<Rightarrow> IntelFailure 500 (ExceptionText e)
                     | Inr facts \<Rightarrow> IntelFacts facts [host_of page_url] (now w)))))"

text \<open>Search mode up to the end of its step 3.\<close>

definition intel_assemble :: "world \<Rightarrow> pystr \<Rightarrow> py_error + assembled" where
  "intel_assemble w query =
     (let price_prefix = intel_price_prefix w query
      in case ddg_search w query 10 of
           Raised e \<Rightarrow> Inl e
         | Returned ddg_results \<Rightarrow>
             (let news_results = google_news_rss w query 8;
                  all_results = merge_results ddg_results news_results
              in if all_results = [] then Inr (NoCandidates price_prefix)
                 else
                   (case chutes_chat w SelectCall (intel_pick_prompt query all_results) of
                      Raised e \<Rightarrow> Inl e
                    | Returned None \<Rightarrow> Inl TypeError
                    | Returned (Some pick_response) \<Rightarrow>
                        (case select_indices (tables w) pick_response (length all_results) of
                           Inl e \<Rightarrow> Inl e
                         | Inr picked \<Rightarrow>
                             (case scrape_urls_of all_results picked of
                                Inl e \<Rightarrow> Inl e
                              | Inr scrape_urls \<Rightarrow>
                                  (case intel_scraped_loop all_results picked scrape_urls 0
                                          (scrape_batch w scrape_urls) [] of
                                     Inl e \<Rightarrow> Inl e
                                   | Inr scraped \<Rightarrow>
                                       Inr (Assembled price_prefix all_results scrape_urls
                                              scraped)))))))"

definition intel_sources :: "pystr list \<Rightarrow> pystr \<Rightarrow> pystr list" where
  "intel_sources scrape_urls price_prefix =
     (let sources = map (\<lambda>i. host_of (scrape_urls ! i)) [0..<length scrape_urls]
      in if price_prefix \<noteq> [] then lit ''coingecko.com'' # sources else sources)"

definition intel_search :: "world \<Rightarrow> pystr \<Rightarrow> int \<Rightarrow> intel_response" where
  "intel_search w query max_bytes =
     (case intel_assemble w query of
        Inl e \<Rightarrow> IntelFailure 500 (ExceptionText e)
      | Inr (NoCandidates price_prefix) \<Rightarrow>
          IntelFacts (lit ''No results found for: '' @ query) [] (now w)
      | Inr (Assembled price_prefix all_results scrape_urls scraped) \<Rightarrow>
          (case chutes_chat w FactsCall
                  (intel_facts_prompt (intel_compress_input query all_results scraped)
                     max_bytes) of
             Raised e \<Rightarrow> IntelFailure 500 (ExceptionText e)
           | Returned None \<Rightarrow> IntelFailure 500 (ExceptionText TypeError)
           | Returned (Some facts) \<Rightarrow>
               (case truncate_utf8 (price_prefix @ facts) max_bytes of
                  Inl e \<Rightarrow> IntelFailure 500 (ExceptionText e)
                | Inr facts \<Rightarrow>
                    IntelFacts facts (intel_sources scrape_urls price_prefix) (now w))))"

definition effective_budget :: "intel_body \<Rightarrow> int" where
  "effective_budget body =
     min (case body_max_bytes body of None \<Rightarrow> 4000 | Some m \<Rightarrow> m) 6000"

definition api_intel :: "world \<Rightarrow> intel_request \<Rightarrow> intel_response" where
  "api_intel w request =
     (if x_api_key request \<noteq> Some (canister_api_key w) then
        IntelFailure 401 (Message (lit ''unauthorized''))
      else
        (case json_body request of
           None \<Rightarrow> IntelFailure 400 (Message (lit ''invalid json''))
         | Some body \<Rightarrow>
             (let query = strip (tables w) (get_or_empty (body_query body));
                  mode = (case body_mode body of None \<Rightarrow> lit ''search'' | Some m \<Rightarrow> m);
                  page_url = get_or_empty (body_url body);
                  max_bytes = effective_budget body
              in if query = [] \<and> mode \<noteq> lit ''price'' then
                   IntelFailure 400 (Message (lit ''missing query''))
                 else if mode = lit ''price'' then intel_price w query
                 else if mode = lit ''browse'' then intel_browse w page_url max_bytes
                 else intel_search w query max_bytes)))"

section \<open>The claims' own notions\<close>

text \<open>
  A reply that \<open>int\<close> converts: none of its digit runs is longer than the limit.
\<close>

definition convertible :: "unicode_tables \<Rightarrow> pystr \<Rightarrow> bool" where
  "convertible T reply =
     (\<forall>tok \<in> set (findall_digits T reply).
        py_int_max_str_digits T = 0 \<or> length tok \<le> py_int_max_str_digits T)"






text \<open>
  The scraped part of a context as the spec words it: for each selected candidate whose
  scrape succeeded, in the order of the selection, a labelled block.
\<close>

definition text_of :: "pystr outcome \<Rightarrow> pystr" where
  "text_of p = (case p of Returned t \<Rightarrow> t | Raised e \<Rightarrow> [])"

definition ask_label :: "result \<Rightarrow> pystr \<Rightarrow> pystr" where
  "ask_label r text =
     [10] @ lit ''--- ['' @ title r @ lit ''] '' @ url r @ lit '' ---'' @ [10]
     @ take 3000 text @ [10]"

definition intel_label :: "result \<Rightarrow> pystr \<Rightarrow> pystr" where
  "intel_label r text =
     [10] @ lit ''['' @ title r @ lit ''] ('' @ url r @ lit '')'' @ [10]
     @ take 2500 text @ [10]"

definition scraped_blocks ::
  "(result \<Rightarrow> pystr \<Rightarrow> pystr) \<Rightarrow> result list \<Rightarrow> int list \<Rightarrow> pystr outcome list \<Rightarrow> pystr" where
  "scraped_blocks label all_results picked pages =
     concat (map (\<lambda>(k, p). if scrape_succeeded p then label (all_results ! nat k) (text_of p)
                            else [])
                 (zip picked pages))"

section \<open>A concrete world\<close>

text \<open>
  Three web results and two news results over four hosts; a selector that repeats an
  index and adds noise; one page whose content starts with \<open>Error\<close>, one ordinary
  page, and a fetch that fails for every other URL.
\<close>

definition demo_result :: "string \<Rightarrow> string \<Rightarrow> result" where
  "demo_result t u =
     \<lparr>title = lit t, url = lit u, snippet = None, date = None, source = []\<rparr>"

definition demo_ddg :: "result list" where
  "demo_ddg = [demo_result ''A'' ''http://x.com/1'', demo_result ''B'' ''ftp://z.org/'',
               demo_result ''C'' ''https://y.org/a'']"

definition demo_news :: "result list" where
  "demo_news = [demo_result ''D'' ''https://x.com/2'', demo_result ''E'' ''http://w.net/'']"

definition demo_merged :: "result list" where
  "demo_merged = [demo_result ''A'' ''http://x.com/1'', demo_result ''C'' ''https://y.org/a'',
                  demo_result ''E'' ''http://w.net/'']"

definition demo_urls :: "pystr list" where
  "demo_urls = [lit ''http://x.com/1'', lit ''https://y.org/a'', lit ''https://y.org/a'']"

definition demo_query :: pystr where
  "demo_query = lit ''btc news''"

definition demo_page :: pystr where
  "demo_page = lit ''Bitcoin traded near 97000 USD on Monday, up one percent on the day.''"

definition demo_error_page :: pystr where
  "demo_error_page = lit ''Error budgets: how site reliability teams plan their releases''"

definition demo_world :: world where
  "demo_world =
     \<lparr> tables = ascii_tables,
       canister_api_key = lit ''secret'',
       now = 1700000000,
       get_crypto_price = (\<lambda>coin. if coin = lit ''bitcoin''
                                    then PriceFound (lit ''97,000.00'') (lit ''+1.25'')
                                    else PriceNotFound),
       ddg_search = (\<lambda>q n. Returned demo_ddg),
       google_news_rss = (\<lambda>q n. demo_news),
       chutes_chat = (\<lambda>call prompt.
                        case call of
                          SelectCall \<Rightarrow> Returned (Some (lit ''0, 1, 1, 7, x''))
                        | AnswerCall \<Rightarrow> Returned (Some (lit ''an answer''))
                        | FactsCall \<Rightarrow> Returned (Some (lit ''some facts''))),
       fetch_task = (\<lambda>i u. if u = lit ''http://x.com/1'' then Ran (Fetched [demo_error_page] [])
                            else if u = lit ''https://y.org/a'' \<and> i \<le> 1
                            then Ran (Fetched [] [demo_page])
                            else Ran (FetchFault (lit ''timeout''))) \<rparr>"

definition demo_request :: "string \<Rightarrow> string \<Rightarrow> string \<Rightarrow> int option \<Rightarrow> intel_request" where
  "demo_request q m u b =
     \<lparr> x_api_key = Some (lit ''secret''),
       json_body = Some \<lparr> body_query = Some (lit q), body_mode = Some (lit m),
                          body_url = Some (lit u), body_max_bytes = b \<rparr> \<rparr>"

section \<open>UTF-8: decoding an encoded text and a cut one\<close>

lemma mod_offset: "x < k \<Longrightarrow> (q * k + x) mod k = (x::nat)"
  by simp

lemma lead2_mod: "x < 32 \<Longrightarrow> (192 + x) mod 32 = (x::nat)"
  using mod_offset[of x 32 6] by simp

lemma lead3_mod: "x < 16 \<Longrightarrow> (224 + x) mod 16 = (x::nat)"
  using mod_offset[of x 16 14] by simp

lemma lead4_mod: "x < 8 \<Longrightarrow> (240 + x) mod 8 = (x::nat)"
  using mod_offset[of x 8 30] by simp

lemma cont_mod: "y < 64 \<Longrightarrow> (128 + y) mod 64 = (y::nat)"
  using mod_offset[of y 64 2] by simp

lemma decode2:
  assumes "2 \<le> x" "x < 32" "y < 64"
  shows "utf8_decode_ignore ([0xC0 + x, 0x80 + y] @ bs) = (x * 64 + y) # utf8_decode_ignore bs"
  using assms by (simp add: is_cont_def lead2_mod cont_mod)

lemma decode3:
  assumes "x < 16" "y < 64" "z < 64" "x = 0 \<longrightarrow> 32 \<le> y" "x = 13 \<longrightarrow> y < 32"
  shows "utf8_decode_ignore ([0xE0 + x, 0x80 + y, 0x80 + z] @ bs)
         = (x * 4096 + y * 64 + z) # utf8_decode_ignore bs"
  using assms by (auto simp add: is_cont_def lead3_mod cont_mod)

lemma decode4:
  assumes "x < 5" "y < 64" "z < 64" "w < 64" "x = 0 \<longrightarrow> 16 \<le> y" "x = 4 \<longrightarrow> y < 16"
  shows "utf8_decode_ignore ([0xF0 + x, 0x80 + y, 0x80 + z, 0x80 + w] @ bs)
         = (x * 262144 + y * 4096 + z * 64 + w) # utf8_decode_ignore bs"
  using assms by (auto simp add: is_cont_def lead4_mod cont_mod)

lemma split3: "(c::nat) = (c div 4096) * 4096 + ((c div 64) mod 64) * 64 + c mod 64"
proof -
  define a where "a = c div 64"
  define b where "b = a div 64"
  have b: "c div 4096 = b"
    using div_mult2_eq[of c 64 64] by (simp add: a_def b_def)
  have a: "a = b * 64 + a mod 64"
    by (simp add: b_def)
  have "c = a * 64 + c mod 64"
    by (simp add: a_def)
  also have "a * 64 = (b * 64 + a mod 64) * 64"
    using a by simp
  also have "\<dots> = b * 4096 + (a mod 64) * 64"
    by (simp add: add_mult_distrib)
  finally show ?thesis
    by (simp add: b a_def)
qed

lemma split4:
  "(c::nat) = (c div 262144) * 262144 + ((c div 4096) mod 64) * 4096
              + ((c div 64) mod 64) * 64 + c mod 64"
proof -
  define a where "a = c div 4096"
  define q where "q = a div 64"
  define r where "r = a mod 64"
  have d: "c div 262144 = q"
    using div_mult2_eq[of c 4096 64] by (simp add: a_def q_def)
  have a: "a = q * 64 + r"
    by (simp add: q_def r_def)
  have "a * 4096 = q * 262144 + r * 4096"
    by (simp add: a add_mult_distrib)
  moreover have "c = a * 4096 + ((c div 64) mod 64) * 64 + c mod 64"
    using split3[of c] by (simp add: a_def)
  ultimately have "c = q * 262144 + r * 4096 + ((c div 64) mod 64) * 64 + c mod 64"
    by simp
  then show ?thesis
    by (simp add: d r_def a_def)
qed

lemma div_window:
  "0 < k \<Longrightarrow> lo * k \<le> c \<Longrightarrow> c < hi * k \<Longrightarrow> lo \<le> c div k \<and> c div k < (hi::nat)"
  by (simp add: less_eq_div_iff_mult_less_eq div_less_iff_less_mult)

lemma mod_window:
  assumes "q * k + lo \<le> a" "a < q * k + hi" "hi \<le> k"
  shows "lo \<le> a mod k \<and> a mod k < (hi::nat)"
proof -
  define x where "x = a - q * k"
  from assms have a: "a = q * k + x" and x: "x < k" "lo \<le> x" "x < hi"
    by (simp_all add: x_def)
  from x(1) have "a mod k = x"
    unfolding a by simp
  with x show ?thesis by simp
qed

lemma utf8_char_shape2:
  assumes "0x80 \<le> c" "c < 0x800"
  obtains x y where "utf8_char c = [0xC0 + x, 0x80 + y]" "2 \<le> x" "x < 32" "y < 64"
    "c = x * 64 + y"
proof -
  have "2 \<le> c div 64" "c div 64 < 32"
    using div_window[of 64 2 c 32] assms by simp_all
  moreover have "utf8_char c = [0xC0 + c div 64, 0x80 + c mod 64]"
    using assms by (simp add: utf8_char_def)
  moreover have "c mod 64 < 64" "c = (c div 64) * 64 + c mod 64"
    by simp_all
  ultimately show ?thesis
    using that by blast
qed

lemma utf8_char_shape3:
  assumes "0x800 \<le> c" "c < 0x10000" "\<not> is_surrogate c"
  obtains x y z where "utf8_char c = [0xE0 + x, 0x80 + y, 0x80 + z]"
    "x < 16" "y < 64" "z < 64" "x = 0 \<longrightarrow> 32 \<le> y" "x = 13 \<longrightarrow> y < 32"
    "c = x * 4096 + y * 64 + z"
proof -
  define x where "x = c div 4096"
  define y where "y = (c div 64) mod 64"
  define z where "z = c mod 64"
  have x: "x < 16"
    using div_window[of 4096 0 c 16] assms by (simp add: x_def)
  have y: "y < 64" and z: "z < 64"
    by (simp_all add: y_def z_def)
  have x0: "x = 0 \<longrightarrow> 32 \<le> y"
  proof
    assume "x = 0"
    then have "c < 4096" by (simp add: x_def div_eq_0_iff)
    with assms(1) have "32 \<le> c div 64 \<and> c div 64 < 64"
      using div_window[of 64 32 c 64] by simp
    then show "32 \<le> y"
      using mod_window[of 0 64 32 "c div 64" 64] by (simp add: y_def)
  qed
  have x13: "x = 13 \<longrightarrow> y < 32"
  proof
    assume "x = 13"
    then have "13 \<le> c div 4096" "c div 4096 < 14" by (simp_all add: x_def)
    then have "53248 \<le> c" "c < 57344"
      by (simp_all add: less_eq_div_iff_mult_less_eq div_less_iff_less_mult)
    with assms(3) have "c < 55296" by (simp add: is_surrogate_def)
    with \<open>53248 \<le> c\<close> have "832 \<le> c div 64 \<and> c div 64 < 864"
      using div_window[of 64 832 c 864] by simp
    then show "y < 32"
      using mod_window[of 13 64 0 "c div 64" 32] by (simp add: y_def)
  qed
  have "utf8_char c = [0xE0 + x, 0x80 + y, 0x80 + z]"
    using assms by (simp add: utf8_char_def x_def y_def z_def)
  moreover have "c = x * 4096 + y * 64 + z"
    unfolding x_def y_def z_def by (rule split3)
  ultimately show ?thesis
    using that x y z x0 x13 by blast
qed

lemma utf8_char_shape4:
  assumes "0x10000 \<le> c" "c < 0x110000"
  obtains x y z w where "utf8_char c = [0xF0 + x, 0x80 + y, 0x80 + z, 0x80 + w]"
    "x < 5" "y < 64" "z < 64" "w < 64" "x = 0 \<longrightarrow> 16 \<le> y" "x = 4 \<longrightarrow> y < 16"
    "c = x * 262144 + y * 4096 + z * 64 + w"
proof -
  define x where "x = c div 262144"
  define y where "y = (c div 4096) mod 64"
  define z where "z = (c div 64) mod 64"
  define w where "w = c mod 64"
  have x: "x < 5"
    using div_window[of 262144 0 c 5] assms by (simp add: x_def)
  have y: "y < 64" and z: "z < 64" and w: "w < 64"
    by (simp_all add: y_def z_def w_def)
  have x0: "x = 0 \<longrightarrow> 16 \<le> y"
  proof
    assume "x = 0"
    then have "c < 262144" by (simp add: x_def div_eq_0_iff)
    with assms(1) have "16 \<le> c div 4096 \<and> c div 4096 < 64"
      using div_window[of 4096 16 c 64] by simp
    then show "16 \<le> y"
      using mod_window[of 0 64 16 "c div 4096" 64] by (simp add: y_def)
  qed
  have x4: "x = 4 \<longrightarrow> y < 16"
  proof
    assume "x = 4"
    then have "4 \<le> c div 262144" by (simp add: x_def)
    then have "1048576 \<le> c"
      by (simp add: less_eq_div_iff_mult_less_eq)
    with assms(2) have "256 \<le> c div 4096 \<and> c div 4096 < 272"
      using div_window[of 4096 256 c 272] by simp
    then show "y < 16"
      using mod_window[of 4 64 0 "c div 4096" 16] by (simp add: y_def)
  qed
  have "utf8_char c = [0xF0 + x, 0x80 + y, 0x80 + z, 0x80 + w]"
    using assms by (simp add: utf8_char_def x_def y_def z_def w_def)
  moreover have "c = x * 262144 + y * 4096 + z * 64 + w"
    unfolding x_def y_def z_def w_def by (rule split4)
  ultimately show ?thesis
    using that x y z w x0 x4 by blast
qed

lemma cut2:
  assumes "2 \<le> x" "x < 32" "k < 2"
  shows "utf8_decode_ignore (take k [0xC0 + x, 0x80 + y]) = []"
proof -
  from assms(3) consider "k = 0" | "k = 1" by linarith
  then show ?thesis using assms(1,2) by cases simp_all
qed

lemma cut3:
  assumes "x < 16" "y < 64" "x = 0 \<longrightarrow> 32 \<le> y" "x = 13 \<longrightarrow> y < 32" "k < 3"
  shows "utf8_decode_ignore (take k [0xE0 + x, 0x80 + y, 0x80 + z]) = []"
proof -
  from assms(5) consider "k = 0" | "k = 1" | "k = 2" by linarith
  then show ?thesis
  proof cases
    case 1 then show ?thesis by simp
  next
    case 2 with assms(1) show ?thesis by simp
  next
    case 3 with assms(1-4) show ?thesis
      by (auto simp add: numeral_2_eq_2 is_cont_def)
  qed
qed

lemma cut4:
  assumes "x < 5" "y < 64" "z < 64" "x = 0 \<longrightarrow> 16 \<le> y" "x = 4 \<longrightarrow> y < 16" "k < 4"
  shows "utf8_decode_ignore (take k [0xF0 + x, 0x80 + y, 0x80 + z, 0x80 + w]) = []"
proof -
  from assms(6) consider "k = 0" | "k = 1" | "k = 2" | "k = 3" by linarith
  then show ?thesis
  proof cases
    case 1 then show ?thesis by simp
  next
    case 2 with assms(1) show ?thesis by simp
  next
    case 3 with assms(1-5) show ?thesis
      by (auto simp add: numeral_2_eq_2 is_cont_def)
  next
    case 4 with assms(1-5) show ?thesis
      by (auto simp add: numeral_3_eq_3 is_cont_def)
  qed
qed

lemma encodable_cases:
  assumes "encodable c"
  obtains "c < 0x80" | "0x80 \<le> c" "c < 0x800"
    | "0x800 \<le> c" "c < 0x10000" "\<not> is_surrogate c" | "0x10000 \<le> c" "c < 0x110000"
  using assms unfolding encodable_def by linarith

lemma decode_utf8_char:
  assumes "encodable c"
  shows "utf8_decode_ignore (utf8_char c @ bs) = c # utf8_decode_ignore bs"
  using assms
proof (cases rule: encodable_cases)
  case 1
  then show ?thesis by (simp add: utf8_char_def)
next
  case 2
  then obtain x y where "utf8_char c = [0xC0 + x, 0x80 + y]" "2 \<le> x" "x < 32" "y < 64"
    "c = x * 64 + y"
    by (rule utf8_char_shape2)
  then show ?thesis using decode2[of x y bs] by simp
next
  case 3
  then obtain x y z where "utf8_char c = [0xE0 + x, 0x80 + y, 0x80 + z]"
    "x < 16" "y < 64" "z < 64" "x = 0 \<longrightarrow> 32 \<le> y" "x = 13 \<longrightarrow> y < 32"
    "c = x * 4096 + y * 64 + z"
    by (rule utf8_char_shape3)
  then show ?thesis using decode3[of x y z bs] by simp
next
  case 4
  then obtain x y z w where "utf8_char c = [0xF0 + x, 0x80 + y, 0x80 + z, 0x80 + w]"
    "x < 5" "y < 64" "z < 64" "w < 64" "x = 0 \<longrightarrow> 16 \<le> y" "x = 4 \<longrightarrow> y < 16"
    "c = x * 262144 + y * 4096 + z * 64 + w"
    by (rule utf8_char_shape4)
  then show ?thesis using decode4[of x y z w bs] by simp
qed

lemma decode_cut_char:
  assumes "encodable c" and "k < length (utf8_char c)"
  shows "utf8_decode_ignore (take k (utf8_char c)) = []"
  using assms(1)
proof (cases rule: encodable_cases)
  case 1
  with assms(2) show ?thesis by (simp add: utf8_char_def)
next
  case 2
  then obtain x y where "utf8_char c = [0xC0 + x, 0x80 + y]" "2 \<le> x" "x < 32" "y < 64"
    "c = x * 64 + y"
    by (rule utf8_char_shape2)
  with assms(2) show ?thesis using cut2[of x k y] by simp
next
  case 3
  then obtain x y z where "utf8_char c = [0xE0 + x, 0x80 + y, 0x80 + z]"
    "x < 16" "y < 64" "z < 64" "x = 0 \<longrightarrow> 32 \<le> y" "x = 13 \<longrightarrow> y < 32"
    "c = x * 4096 + y * 64 + z"
    by (rule utf8_char_shape3)
  with assms(2) show ?thesis using cut3[of x y k z] by simp
next
  case 4
  then obtain x y z w where "utf8_char c = [0xF0 + x, 0x80 + y, 0x80 + z, 0x80 + w]"
    "x < 5" "y < 64" "z < 64" "w < 64" "x = 0 \<longrightarrow> 16 \<le> y" "x = 4 \<longrightarrow> y < 16"
    "c = x * 262144 + y * 4096 + z * 64 + w"
    by (rule utf8_char_shape4)
  with assms(2) show ?thesis using cut4[of x y z k w] by simp
qed

lemma decode_take_encode:
  "utf8_encode cs = Inr enc \<Longrightarrow> utf8_decode_ignore (take n enc) = fit_prefix n cs"
proof (induction cs arbitrary: n enc)
  case Nil
  then show ?case by simp
next
  case (Cons c cs)
  from Cons.prems obtain bs where c: "encodable c" and bs: "utf8_encode cs = Inr bs"
    and enc: "enc = utf8_char c @ bs"
    by (auto split: if_splits sum.splits)
  show ?case
  proof (cases "length (utf8_char c) \<le> n")
    case True
    then have "take n enc = utf8_char c @ take (n - length (utf8_char c)) bs"
      by (simp add: enc)
    with True c Cons.IH[OF bs] show ?thesis
      by (simp add: decode_utf8_char)
  next
    case False
    then have "take n enc = take n (utf8_char c)"
      by (simp add: enc)
    with False c show ?thesis
      by (simp add: decode_cut_char)
  qed
qed

lemma fit_prefix_prefix: "prefix (fit_prefix n cs) cs"
  by (induction cs arbitrary: n) auto

lemma fit_prefix_encode:
  "utf8_encode cs = Inr enc \<Longrightarrow>
   \<exists>m \<le> n. utf8_encode (fit_prefix n cs) = Inr (take m enc) \<and> m \<le> length enc"
proof (induction cs arbitrary: n enc)
  case Nil
  then show ?case by simp
next
  case (Cons c cs)
  from Cons.prems obtain bs where c: "encodable c" and bs: "utf8_encode cs = Inr bs"
    and enc: "enc = utf8_char c @ bs"
    by (auto split: if_splits sum.splits)
  show ?case
  proof (cases "length (utf8_char c) \<le> n")
    case True
    from Cons.IH[OF bs, of "n - length (utf8_char c)"] obtain m
      where m: "m \<le> n - length (utf8_char c)" "m \<le> length bs"
        "utf8_encode (fit_prefix (n - length (utf8_char c)) cs) = Inr (take m bs)"
      by blast
    let ?m = "length (utf8_char c) + m"
    from True m c have "?m \<le> n" "?m \<le> length enc"
         "utf8_encode (fit_prefix n (c # cs)) = Inr (take ?m enc)"
      by (simp_all add: enc)
    then show ?thesis by blast
  next
    case False
    then have "utf8_encode (fit_prefix n (c # cs)) = Inr (take 0 enc)" by simp
    then show ?thesis by blast
  qed
qed

lemma fit_prefix_all:
  "utf8_encode cs = Inr enc \<Longrightarrow> length enc \<le> n \<Longrightarrow> fit_prefix n cs = cs"
proof (induction cs arbitrary: n enc)
  case Nil
  then show ?case by simp
next
  case (Cons c cs)
  from Cons.prems(1) obtain bs where bs: "utf8_encode cs = Inr bs"
    and enc: "enc = utf8_char c @ bs"
    by (auto split: if_splits sum.splits)
  with Cons.prems(2) Cons.IH[OF bs, of "n - length (utf8_char c)"] show ?case
    by simp
qed

lemma fit_prefix_longest:
  "prefix p cs \<Longrightarrow> utf8_encode p = Inr e \<Longrightarrow> length e \<le> n \<Longrightarrow> prefix p (fit_prefix n cs)"
proof (induction cs arbitrary: p n e)
  case Nil
  then show ?case by simp
next
  case (Cons c cs)
  show ?case
  proof (cases p)
    case Nil
    then show ?thesis by simp
  next
    case (Cons d ds)
    with Cons.prems(1) have d: "d = c" and ds: "prefix ds cs" by simp_all
    from Cons.prems(2) Cons d obtain bs where bs: "utf8_encode ds = Inr bs"
      and e: "e = utf8_char c @ bs"
      by (auto split: if_splits sum.splits)
    from e Cons.prems(3) have "length (utf8_char c) \<le> n" "length bs \<le> n - length (utf8_char c)"
      by simp_all
    with Cons.IH[OF ds bs] Cons d show ?thesis by simp
  qed
qed

lemma truncate_utf8_fit:
  assumes "utf8_encode text = Inr enc" and "0 \<le> max_bytes"
  shows "truncate_utf8 text max_bytes = Inr (fit_prefix (nat max_bytes) text)"
proof (cases "int (length enc) \<le> max_bytes")
  case True
  then have "length enc \<le> nat max_bytes" by linarith
  with assms(1) True show ?thesis
    by (simp add: truncate_utf8_def fit_prefix_all)
next
  case False
  with assms show ?thesis
    by (simp add: truncate_utf8_def slice_to_def decode_take_encode)
qed


section \<open>Running the model on concrete inputs\<close>

lemmas demo_defs = demo_world_def demo_ddg_def demo_news_def demo_merged_def demo_urls_def
  demo_query_def demo_result_def demo_page_def demo_error_page_def demo_request_def
  ascii_tables_def lit_def

lemmas run_defs = merge_results_def host_of_def py_split_def select_indices_def
  findall_digits_def py_int_def digits_value_def getitem_def scrape_batch_def scrape_url_def
  scrape_url_sync_def extract_text_def strip_def ask_block_def intel_block_def coin_of_def
  ask_price_info_def intel_price_prefix_def

section \<open>The selection loop and the merge loop in closed form\<close>

lemma pick_loop_closed:
  "pick_loop T n toks picked =
     (if \<forall>tok \<in> set toks. py_int_max_str_digits T = 0 \<or> length tok \<le> py_int_max_str_digits T
      then Inr (picked @ filter (\<lambda>i. 0 \<le> i \<and> i < int n) (map (digits_value T) toks))
      else Inl ValueError)"
  by (induction toks arbitrary: picked) (auto simp add: py_int_def)

lemma findall_from_concat:
  "concat (findall_from T cur s) = rev cur @ filter (\<lambda>c. py_decimal T c \<noteq> None) s"
  by (induction s arbitrary: cur) auto

lemma findall_from_tokens:
  "\<forall>c \<in> set cur. py_decimal T c \<noteq> None \<Longrightarrow>
   \<forall>tok \<in> set (findall_from T cur s). tok \<noteq> [] \<and> (\<forall>c \<in> set tok. py_decimal T c \<noteq> None)"
proof (induction s arbitrary: cur)
  case Nil
  then show ?case by auto
next
  case (Cons a s)
  show ?case
  proof (cases "py_decimal T a = None")
    case False
    with Cons.prems have "\<forall>c \<in> set (a # cur). py_decimal T c \<noteq> None" by simp
    from Cons.IH[OF this] False show ?thesis by simp
  next
    case True
    have "\<forall>tok \<in> set (findall_from T [] s).
            tok \<noteq> [] \<and> (\<forall>c \<in> set tok. py_decimal T c \<noteq> None)"
      by (rule Cons.IH) simp
    with True Cons.prems show ?thesis by auto
  qed
qed



lemma select_indices_closed:
  "select_indices T reply n =
     (if convertible T reply
      then Inr (take 5
             (if filter (\<lambda>i. 0 \<le> i \<and> i < int n)
                   (map (digits_value T) (findall_digits T reply)) = []
              then map int [0..<min 4 n]
              else filter (\<lambda>i. 0 \<le> i \<and> i < int n)
                     (map (digits_value T) (findall_digits T reply))))
      else Inl ValueError)"
  by (simp add: select_indices_def pick_loop_closed convertible_def Let_def)

lemma select_indices_in_range:
  assumes "select_indices T reply n = Inr selection" and "i \<in> set selection"
  shows "0 \<le> i \<and> i < int n"
proof -
  let ?valid = "filter (\<lambda>i. 0 \<le> i \<and> i < int n)
                  (map (digits_value T) (findall_digits T reply))"
  have conv: "convertible T reply"
  proof (rule ccontr)
    assume "\<not> convertible T reply"
    then have "select_indices T reply n = Inl ValueError"
      by (simp only: select_indices_closed if_False)
    with assms(1) show False by simp
  qed
  have "select_indices T reply n
        = Inr (take 5 (if ?valid = [] then map int [0..<min 4 n] else ?valid))"
    using conv by (simp only: select_indices_closed if_True)
  with assms(1) have "selection = take 5 (if ?valid = [] then map int [0..<min 4 n] else ?valid)"
    by (simp only: sum.inject)
  with assms(2)
  have "i \<in> set (take 5 (if ?valid = [] then map int [0..<min 4 n] else ?valid))"
    by (simp only:)
  then have "i \<in> set (if ?valid = [] then map int [0..<min 4 n] else ?valid)"
    by (rule in_set_takeD)
  then show ?thesis
  proof (cases "?valid = []")
    case True
    with \<open>i \<in> set (if ?valid = [] then map int [0..<min 4 n] else ?valid)\<close>
    have "i \<in> set (map int [0..<min 4 n])" by simp
    then show ?thesis by auto
  next
    case False
    with \<open>i \<in> set (if ?valid = [] then map int [0..<min 4 n] else ?valid)\<close>
    have "i \<in> set ?valid" by simp
    then show ?thesis by simp
  qed
qed

lemma getitem_in_range:
  "0 \<le> i \<Longrightarrow> i < int (length xs) \<Longrightarrow> getitem xs i = Inr (xs ! nat i)"
  by (simp add: getitem_def)

lemma scrape_urls_of_in_range:
  "\<forall>i \<in> set picked. 0 \<le> i \<and> i < int (length rs) \<Longrightarrow>
   scrape_urls_of rs picked = Inr (map (\<lambda>i. url (rs ! nat i)) picked)"
  by (induction picked) (simp_all add: getitem_in_range)

lemma scrape_urls_of_selection:
  assumes "select_indices T reply (length rs) = Inr selection"
  shows "scrape_urls_of rs selection = Inr (map (\<lambda>i. url (rs ! nat i)) selection)"
  by (rule scrape_urls_of_in_range) (simp add: select_indices_in_range[OF assms])








section \<open>The scrape batch, the context loops and the handlers in closed form\<close>

lemma scrape_from_length: "length (scrape_from w i us) = length us"
  by (induction us arbitrary: i) simp_all

lemma scrape_from_nth:
  "j < length us \<Longrightarrow> scrape_from w i us ! j = scrape_url w (i + j) (us ! j)"
proof (induction us arbitrary: i j)
  case Nil
  then show ?case by simp
next
  case (Cons u us)
  then show ?case by (cases j) simp_all
qed

lemma scraped_blocks_Cons:
  "scraped_blocks label rs (k # ks) (p # ps) =
     (if scrape_succeeded p then label (rs ! nat k) (text_of p) else [])
     @ scraped_blocks label rs ks ps"
  by (simp add: scraped_blocks_def)

lemma scraped_blocks_Nil: "scraped_blocks label rs ks [] = []"
  by (simp add: scraped_blocks_def)

lemma ask_block_in_range:
  assumes "\<forall>k \<in> set picked. 0 \<le> k \<and> k < int (length rs)" and "i < length picked"
  shows "ask_block rs picked (map (\<lambda>k. url (rs ! nat k)) picked) i t
         = Inr (ask_label (rs ! nat (picked ! i)) t)"
proof -
  from assms have "0 \<le> picked ! i \<and> picked ! i < int (length rs)" by simp
  with assms(2) show ?thesis
    by (simp add: ask_block_def ask_label_def getitem_in_range)
qed

lemma intel_block_in_range:
  assumes "\<forall>k \<in> set picked. 0 \<le> k \<and> k < int (length rs)" and "i < length picked"
  shows "intel_block rs picked (map (\<lambda>k. url (rs ! nat k)) picked) i t
         = Inr (intel_label (rs ! nat (picked ! i)) t)"
proof -
  from assms have "0 \<le> picked ! i \<and> picked ! i < int (length rs)" by simp
  with assms(2) show ?thesis
    by (simp add: intel_block_def intel_label_def getitem_in_range)
qed

lemma ask_scraped_loop_closed:
  assumes "\<forall>k \<in> set picked. 0 \<le> k \<and> k < int (length rs)"
    and "i + length pages \<le> length picked"
  shows "ask_scraped_loop rs picked (map (\<lambda>k. url (rs ! nat k)) picked) i pages acc
         = Inr (acc @ scraped_blocks ask_label rs (drop i picked) pages)"
  using assms(2)
proof (induction pages arbitrary: i acc)
  case Nil
  then show ?case by (simp add: scraped_blocks_Nil)
next
  case (Cons p pages)
  then have i: "i < length picked" and rest: "Suc i + length pages \<le> length picked"
    by simp_all
  from i have d: "drop i picked = picked ! i # drop (Suc i) picked"
    by (simp add: Cons_nth_drop_Suc)
  show ?case
  proof (cases p)
    case (Raised e)
    then show ?thesis
      using Cons.IH[OF rest] by (simp add: d scraped_blocks_Cons scrape_succeeded_def)
  next
    case (Returned t)
    then show ?thesis
      using Cons.IH[OF rest] ask_block_in_range[OF assms(1) i]
      by (simp add: d scraped_blocks_Cons scrape_succeeded_def text_of_def)
  qed
qed

lemma intel_scraped_loop_closed:
  assumes "\<forall>k \<in> set picked. 0 \<le> k \<and> k < int (length rs)"
    and "i + length pages \<le> length picked"
  shows "intel_scraped_loop rs picked (map (\<lambda>k. url (rs ! nat k)) picked) i pages acc
         = Inr (acc @ scraped_blocks intel_label rs (drop i picked) pages)"
  using assms(2)
proof (induction pages arbitrary: i acc)
  case Nil
  then show ?case by (simp add: scraped_blocks_Nil)
next
  case (Cons p pages)
  then have i: "i < length picked" and rest: "Suc i + length pages \<le> length picked"
    by simp_all
  from i have d: "drop i picked = picked ! i # drop (Suc i) picked"
    by (simp add: Cons_nth_drop_Suc)
  show ?case
  proof (cases p)
    case (Raised e)
    then show ?thesis
      using Cons.IH[OF rest] by (simp add: d scraped_blocks_Cons scrape_succeeded_def)
  next
    case (Returned t)
    then show ?thesis
      using Cons.IH[OF rest] intel_block_in_range[OF assms(1) i]
      by (simp add: d scraped_blocks_Cons scrape_succeeded_def text_of_def)
  qed
qed

lemma ask_scraped_of_selection:
  assumes "select_indices T reply (length rs) = Inr selection"
  shows "ask_scraped_loop rs selection (map (\<lambda>k. url (rs ! nat k)) selection) 0
           (scrape_batch w (map (\<lambda>k. url (rs ! nat k)) selection)) []
         = Inr (scraped_blocks ask_label rs selection
                  (scrape_batch w (map (\<lambda>k. url (rs ! nat k)) selection)))"
  using ask_scraped_loop_closed[of selection rs 0
      "scrape_batch w (map (\<lambda>k. url (rs ! nat k)) selection)" "[]"]
  by (simp add: select_indices_in_range[OF assms] scrape_batch_def scrape_from_length)

lemma intel_scraped_of_selection:
  assumes "select_indices T reply (length rs) = Inr selection"
  shows "intel_scraped_loop rs selection (map (\<lambda>k. url (rs ! nat k)) selection) 0
           (scrape_batch w (map (\<lambda>k. url (rs ! nat k)) selection)) []
         = Inr (scraped_blocks intel_label rs selection
                  (scrape_batch w (map (\<lambda>k. url (rs ! nat k)) selection)))"
  using intel_scraped_loop_closed[of selection rs 0
      "scrape_batch w (map (\<lambda>k. url (rs ! nat k)) selection)" "[]"]
  by (simp add: select_indices_in_range[OF assms] scrape_batch_def scrape_from_length)

lemma ask_assemble_Assembled:
  assumes "ask_assemble w q = Inr (Assembled p rs urls sc)"
  shows "\<exists>d reply selection. ddg_search w q 10 = Returned d
           \<and> rs = merge_results d (google_news_rss w q 8) \<and> rs \<noteq> []
           \<and> chutes_chat w SelectCall (ask_pick_prompt q rs) = Returned (Some reply)
           \<and> select_indices (tables w) reply (length rs) = Inr selection
           \<and> p = ask_price_info w q
           \<and> urls = map (\<lambda>k. url (rs ! nat k)) selection
           \<and> sc = scraped_blocks ask_label rs selection (scrape_batch w urls)"
  using assms
  by (auto simp add: ask_assemble_def Let_def scrape_urls_of_selection ask_scraped_of_selection
      split: outcome.splits option.splits sum.splits if_splits)

lemma intel_assemble_Assembled:
  assumes "intel_assemble w q = Inr (Assembled p rs urls sc)"
  shows "\<exists>d reply selection. ddg_search w q 10 = Returned d
           \<and> rs = merge_results d (google_news_rss w q 8) \<and> rs \<noteq> []
           \<and> chutes_chat w SelectCall (intel_pick_prompt q rs) = Returned (Some reply)
           \<and> select_indices (tables w) reply (length rs) = Inr selection
           \<and> p = intel_price_prefix w q
           \<and> urls = map (\<lambda>k. url (rs ! nat k)) selection
           \<and> sc = scraped_blocks intel_label rs selection (scrape_batch w urls)"
  using assms
  by (auto simp add: intel_assemble_def Let_def scrape_urls_of_selection
      intel_scraped_of_selection split: outcome.splits option.splits sum.splits if_splits)







lemma truncate_utf8_fits:
  assumes "truncate_utf8 text max_bytes = Inr out" and "0 \<le> max_bytes"
  shows "\<exists>enc. utf8_encode out = Inr enc \<and> int (length enc) \<le> max_bytes"
proof (cases "utf8_encode text")
  case (Inl e)
  with assms(1) show ?thesis by (simp add: truncate_utf8_def)
next
  case (Inr enc0)
  from truncate_utf8_fit[OF Inr assms(2)] assms(1)
  have out: "out = fit_prefix (nat max_bytes) text" by simp
  from fit_prefix_encode[OF Inr, of "nat max_bytes"] obtain m
    where "m \<le> nat max_bytes" "utf8_encode (fit_prefix (nat max_bytes) text) = Inr (take m enc0)"
    by blast
  with assms(2) show ?thesis
    unfolding out by (auto simp add: min_def le_nat_iff)
qed

lemma ask_AskAnswer:
  assumes "ask w q = AskAnswer answer sources n"
  shows "\<exists>p rs sc. ask_assemble w q = Inr (Assembled p rs sources sc) \<and> n = length sources
           \<and> chutes_chat w AnswerCall (ask_answer_prompt q (ask_context p rs sc))
               = Returned answer"
  using assms
  by (auto simp add: ask_def split: sum.splits assembled.splits outcome.splits)

lemma intel_search_IntelFacts:
  assumes "intel_search w query max_bytes = IntelFacts f s t"
  shows "(\<exists>pp. intel_assemble w query = Inr (NoCandidates pp) \<and> s = []
            \<and> f = lit ''No results found for: '' @ query)
         \<or> (\<exists>pp rs urls sc facts. intel_assemble w query = Inr (Assembled pp rs urls sc)
              \<and> chutes_chat w FactsCall
                   (intel_facts_prompt (intel_compress_input query rs sc) max_bytes)
                 = Returned (Some facts)
              \<and> truncate_utf8 (pp @ facts) max_bytes = Inr f
              \<and> s = intel_sources urls pp)"
  using assms
  by (auto simp add: intel_search_def
      split: sum.splits assembled.splits outcome.splits option.splits)

lemma intel_browse_IntelFacts:
  assumes "intel_browse w page_url max_bytes = IntelFacts f s t"
  shows "\<exists>text facts. scrape_url w 0 page_url = Returned text
           \<and> chutes_chat w FactsCall (intel_browse_prompt page_url text max_bytes)
               = Returned (Some facts)
           \<and> truncate_utf8 facts max_bytes = Inr f \<and> s = [host_of page_url]"
  using assms
  by (auto simp add: intel_browse_def
      split: sum.splits outcome.splits option.splits if_splits)

lemma intel_sources_map:
  "intel_sources urls pp
   = (if pp \<noteq> [] then [lit ''coingecko.com''] else []) @ map host_of urls"
proof -
  have "map (\<lambda>i. host_of (urls ! i)) [0..<length urls] = map host_of urls"
    by (rule nth_equalityI) simp_all
  then show ?thesis by (simp add: intel_sources_def)
qed

lemma api_intel_IntelFacts:
  assumes "api_intel w request = IntelFacts f s t" and "json_body request = Some body"
  shows "x_api_key request = Some (canister_api_key w)
         \<and> (if body_mode body = Some (lit ''price'')
             then intel_price w (strip (tables w) (get_or_empty (body_query body)))
             else if body_mode body = Some (lit ''browse'')
             then intel_browse w (get_or_empty (body_url body)) (effective_budget body)
             else intel_search w (strip (tables w) (get_or_empty (body_query body)))
                    (effective_budget body)) = IntelFacts f s t"
proof (cases "body_mode body")
  case None
  have "lit ''search'' \<noteq> lit ''price''" "lit ''search'' \<noteq> lit ''browse''"
    by (simp_all add: lit_def)
  with assms None show ?thesis
    by (auto simp add: api_intel_def Let_def split: if_splits)
next
  case (Some m)
  with assms show ?thesis
    by (auto simp add: api_intel_def Let_def split: if_splits)
qed

lemma update_fetch_task_price:
  "intel_price_prefix (w\<lparr>fetch_task := ft\<rparr>) q = intel_price_prefix w q"
  "ask_price_info (w\<lparr>fetch_task := ft\<rparr>) q = ask_price_info w q"
  by (simp_all add: intel_price_prefix_def ask_price_info_def Let_def)

lemma update_fetch_task_assemble:
  assumes "ask_assemble w q = Inr (Assembled p rs urls sc)"
    and "ask_assemble (w\<lparr>fetch_task := ft\<rparr>) q = Inr (Assembled p' rs' urls' sc')"
  shows "urls' = urls"
proof -
  from ask_assemble_Assembled[OF assms(1)] obtain d reply selection where
    1: "ddg_search w q 10 = Returned d" "rs = merge_results d (google_news_rss w q 8)"
       "chutes_chat w SelectCall (ask_pick_prompt q rs) = Returned (Some reply)"
       "select_indices (tables w) reply (length rs) = Inr selection"
       "urls = map (\<lambda>k. url (rs ! nat k)) selection"
    by blast
  from ask_assemble_Assembled[OF assms(2)] obtain d' reply' selection' where
    2: "ddg_search w q 10 = Returned d'" "rs' = merge_results d' (google_news_rss w q 8)"
       "chutes_chat w SelectCall (ask_pick_prompt q rs') = Returned (Some reply')"
       "select_indices (tables w) reply' (length rs') = Inr selection'"
       "urls' = map (\<lambda>k. url (rs' ! nat k)) selection'"
    by auto
  from 1(1) 2(1) have "d' = d" by simp
  with 1(2) 2(2) have rs: "rs' = rs" by simp
  with 1(3) 2(3) have "reply' = reply" by simp
  with rs 1(4) 2(4) have "selection' = selection" by simp
  with rs 1(5) 2(5) show ?thesis by simp
qed

lemma update_fetch_task_intel_assemble:
  assumes "intel_assemble w q = Inr (Assembled p rs urls sc)"
    and "intel_assemble (w\<lparr>fetch_task := ft\<rparr>) q = Inr (Assembled p' rs' urls' sc')"
  shows "urls' = urls \<and> p' = p"
proof -
  from intel_assemble_Assembled[OF assms(1)] obtain d reply selection where
    1: "ddg_search w q 10 = Returned d" "rs = merge_results d (google_news_rss w q 8)"
       "chutes_chat w SelectCall (intel_pick_prompt q rs) = Returned (Some reply)"
       "select_indices (tables w) reply (length rs) = Inr selection"
       "urls = map (\<lambda>k. url (rs ! nat k)) selection"
       "p = intel_price_prefix w q"
    by blast
  from intel_assemble_Assembled[OF assms(2)] obtain d' reply' selection' where
    2: "ddg_search w q 10 = Returned d'" "rs' = merge_results d' (google_news_rss w q 8)"
       "chutes_chat w SelectCall (intel_pick_prompt q rs') = Returned (Some reply')"
       "select_indices (tables w) reply' (length rs') = Inr selection'"
       "urls' = map (\<lambda>k. url (rs' ! nat k)) selection'"
       "p' = intel_price_prefix w q"
    by (auto simp add: update_fetch_task_price)
  from 1(1) 2(1) have "d' = d" by simp
  with 1(2) 2(2) have rs: "rs' = rs" by simp
  with 1(3) 2(3) have "reply' = reply" by simp
  with rs 1(4) 2(4) have "selection' = selection" by simp
  with rs 1(5,6) 2(5,6) show ?thesis by simp
qed

lemma update_fetch_task_no_candidates:
  "intel_assemble (w\<lparr>fetch_task := ft\<rparr>) q = Inr (NoCandidates pp')
   \<longleftrightarrow> intel_assemble w q = Inr (NoCandidates pp')"
  by (auto simp add: intel_assemble_def update_fetch_task_price Let_def
      split: outcome.splits option.splits if_splits sum.splits)

section \<open>Claims about the truncator\<close>

text \<open>
  C1, as stated, fails: for a negative \<open>max_bytes\<close> the slice \<open>encoded[:max_bytes]\<close>
  drops bytes from the end, so the result is longer than \<open>max_bytes\<close> (no string
  is that short); and a text holding a lone surrogate makes \<open>encode\<close> raise, so nothing
  is returned.
\<close>

theorem truncate_utf8_safe_counterexample:
  "truncate_utf8 (lit ''ab'') (- 1) = Inr (lit ''a'')
   \<and> utf8_encode (lit ''a'') = Inr [97]
   \<and> \<not> int (length [97::nat]) \<le> - 1
   \<and> truncate_utf8 [0xD800] 10 = Inl UnicodeEncodeError"
  by (simp add: truncate_utf8_def lit_def encodable_def is_surrogate_def utf8_char_def
      slice_to_def)

text \<open>
  C1 (amended): for every text that UTF-8 can encode and every \<open>max_bytes \<ge> 0\<close>,
  \<open>_truncate_utf8(text, max_bytes)\<close> returns a text that encodes, in at most
  \<open>max_bytes\<close> bytes, and that is a prefix of \<open>text\<close> (its bytes a prefix of
  the encoding of \<open>text\<close>); it is the longest such prefix, so only the partial
  sequence at the cut is dropped; and when the encoding of \<open>text\<close> has at most
  \<open>max_bytes\<close> bytes the output is \<open>text\<close>.
\<close>

theorem truncate_utf8_safe:
  assumes "utf8_encode text = Inr enc" and "0 \<le> max_bytes"
  shows "\<exists>out enc'. truncate_utf8 text max_bytes = Inr out
           \<and> utf8_encode out = Inr enc'
           \<and> int (length enc') \<le> max_bytes
           \<and> prefix out text \<and> prefix enc' enc
           \<and> (\<forall>p e. prefix p text \<and> utf8_encode p = Inr e \<and> int (length e) \<le> max_bytes
                  \<longrightarrow> prefix p out)
           \<and> (int (length enc) \<le> max_bytes \<longrightarrow> out = text)"
proof -
  let ?out = "fit_prefix (nat max_bytes) text"
  from fit_prefix_encode[OF assms(1), of "nat max_bytes"] obtain m
    where m: "m \<le> nat max_bytes" "utf8_encode ?out = Inr (take m enc)" "m \<le> length enc"
    by blast
  have "truncate_utf8 text max_bytes = Inr ?out"
    using assms by (rule truncate_utf8_fit)
  moreover have "int (length (take m enc)) \<le> max_bytes"
    using m(1) assms(2) by (simp add: min_def le_nat_iff)
  moreover have "prefix ?out text"
    by (rule fit_prefix_prefix)
  moreover have "prefix (take m enc) enc"
    by (rule take_is_prefix)
  moreover have "\<forall>p e. prefix p text \<and> utf8_encode p = Inr e \<and> int (length e) \<le> max_bytes
                  \<longrightarrow> prefix p ?out"
    using assms(2) by (auto intro!: fit_prefix_longest)
  moreover have "int (length enc) \<le> max_bytes \<longrightarrow> ?out = text"
    using assms by (auto intro!: fit_prefix_all)
  ultimately show ?thesis
    using m(2) by blast
qed


theorem truncate_utf8_safe_witness:
  "utf8_encode (lit ''ab'' @ [0x20AC] @ lit ''c'') = Inr [97, 98, 0xE2, 0x82, 0xAC, 99]
   \<and> (0::int) \<le> 4
   \<and> (\<exists>out enc'. truncate_utf8 (lit ''ab'' @ [0x20AC] @ lit ''c'') 4 = Inr out
           \<and> utf8_encode out = Inr enc'
           \<and> int (length enc') \<le> 4
           \<and> prefix out (lit ''ab'' @ [0x20AC] @ lit ''c'')
           \<and> prefix enc' [97, 98, 0xE2, 0x82, 0xAC, 99]
           \<and> (\<forall>p e. prefix p (lit ''ab'' @ [0x20AC] @ lit ''c'') \<and> utf8_encode p = Inr e
                    \<and> int (length e) \<le> 4 \<longrightarrow> prefix p out)
           \<and> (int (length [97, 98, 0xE2, 0x82, 0xAC, 99 :: nat]) \<le> 4
                \<longrightarrow> out = lit ''ab'' @ [0x20AC] @ lit ''c''))"
proof -
  have h1: "utf8_encode (lit ''ab'' @ [0x20AC] @ lit ''c'') = Inr [97, 98, 0xE2, 0x82, 0xAC, 99]"
    by (simp add: lit_def encodable_def is_surrogate_def utf8_char_def)
  have h2: "(0::int) \<le> 4" by simp
  from truncate_utf8_safe[OF h1 h2] h1 h2 show ?thesis by blast
qed

section \<open>Claims about the byte budget of \<open>/api/intel\<close>\<close>

text \<open>
  C2, as stated, fails: the price mode returns its facts as they are, whatever the
  budget; so does the search mode when no candidate was found; and for a negative
  budget the truncation only drops bytes from the end, so no response fits.
\<close>

theorem intel_facts_within_budget_counterexample:
  "api_intel demo_world (demo_request ''btc'' ''price'' '''' (Some 10))
     = IntelFacts (lit ''bitcoin $97,000.00 (+1.25% 24h) (coingecko)'')
         [lit ''coingecko.com''] 1700000000
   \<and> utf8_encode (lit ''bitcoin $97,000.00 (+1.25% 24h) (coingecko)'')
       = Inr (lit ''bitcoin $97,000.00 (+1.25% 24h) (coingecko)'')
   \<and> \<not> int (length (lit ''bitcoin $97,000.00 (+1.25% 24h) (coingecko)'')) \<le> min 10 6000
   \<and> api_intel demo_world (demo_request ''q'' ''browse'' ''https://y.org/a'' (Some (- 1)))
       = IntelFacts (lit ''some fact'') [lit ''y.org''] 1700000000
   \<and> utf8_encode (lit ''some fact'') = Inr (lit ''some fact'')
   \<and> \<not> int (length (lit ''some fact'')) \<le> min (- 1) 6000
   \<and> api_intel (demo_world\<lparr>ddg_search := \<lambda>q n. Returned [], google_news_rss := \<lambda>q n. []\<rparr>)
         (demo_request ''abc'' ''search'' '''' (Some 5))
       = IntelFacts (lit ''No results found for: abc'') [] 1700000000
   \<and> utf8_encode (lit ''No results found for: abc'') = Inr (lit ''No results found for: abc'')
   \<and> \<not> int (length (lit ''No results found for: abc'')) \<le> min 5 6000"
  by (simp add: api_intel_def effective_budget_def intel_price_def intel_browse_def
      intel_search_def intel_assemble_def get_or_empty_def truncate_utf8_def slice_to_def
      encodable_def is_surrogate_def utf8_char_def is_cont_def demo_defs run_defs)

text \<open>
  C2 (amended): for every \<open>/api/intel\<close> request the budget is
  \<open>min(requested max_bytes, 6000)\<close>, 4000 when none is requested, so at most 6000; and
  when it is not negative, the facts of every successful response of the browse mode,
  and of the search mode when at least one candidate was found, encode in UTF-8 within
  the budget.
\<close>

theorem intel_facts_within_budget:
  assumes "api_intel w request = IntelFacts f s t"
    and "json_body request = Some body"
    and "0 \<le> effective_budget body"
    and "body_mode body = Some (lit ''browse'')
         \<or> (body_mode body \<noteq> Some (lit ''price'')
             \<and> (\<forall>pp. intel_assemble w (strip (tables w) (get_or_empty (body_query body)))
                       \<noteq> Inr (NoCandidates pp)))"
  shows "effective_budget body
           = min (case body_max_bytes body of None \<Rightarrow> 4000 | Some m \<Rightarrow> m) 6000
         \<and> effective_budget body \<le> 6000
         \<and> (body_max_bytes body = None \<longrightarrow> effective_budget body = 4000)
         \<and> (\<exists>enc. utf8_encode f = Inr enc \<and> int (length enc) \<le> effective_budget body)"
proof -
  let ?query = "strip (tables w) (get_or_empty (body_query body))"
  have ne: "lit ''browse'' \<noteq> lit ''price''"
    by (simp add: lit_def)
  have fits: "\<exists>enc. utf8_encode f = Inr enc \<and> int (length enc) \<le> effective_budget body"
  proof (cases "body_mode body = Some (lit ''browse'')")
    case True
    with api_intel_IntelFacts[OF assms(1,2)] ne
    have "intel_browse w (get_or_empty (body_url body)) (effective_budget body) = IntelFacts f s t"
      by simp
    from intel_browse_IntelFacts[OF this] obtain facts
      where "truncate_utf8 facts (effective_budget body) = Inr f"
      by blast
    then show ?thesis
      using assms(3) by (rule truncate_utf8_fits)
  next
    case False
    with assms(4) have np: "body_mode body \<noteq> Some (lit ''price'')"
      and some: "\<forall>pp. intel_assemble w ?query \<noteq> Inr (NoCandidates pp)"
      by blast+
    from api_intel_IntelFacts[OF assms(1,2)] False np
    have "intel_search w ?query (effective_budget body) = IntelFacts f s t"
      by simp
    from intel_search_IntelFacts[OF this] some obtain pp facts
      where "truncate_utf8 (pp @ facts) (effective_budget body) = Inr f"
      by blast
    then show ?thesis
      using assms(3) by (rule truncate_utf8_fits)
  qed
  have "effective_budget body
          = min (case body_max_bytes body of None \<Rightarrow> 4000 | Some m \<Rightarrow> m) 6000"
    by (simp add: effective_budget_def)
  moreover have "effective_budget body \<le> 6000"
    by (simp add: effective_budget_def)
  moreover have "body_max_bytes body = None \<longrightarrow> effective_budget body = 4000"
    by (simp add: effective_budget_def)
  ultimately show ?thesis using fits by blast
qed

theorem intel_facts_within_budget_witness:
  "api_intel demo_world (demo_request ''btc news'' ''search'' '''' None)
     = IntelFacts (lit ''bitcoin $97,000.00 (+1.25% 24h) (coingecko) | some facts'')
         [lit ''coingecko.com'', lit ''x.com'', lit ''y.org'', lit ''y.org''] 1700000000
   \<and> effective_budget \<lparr> body_query = Some (lit ''btc news''), body_mode = Some (lit ''search''),
                          body_url = Some (lit ''''), body_max_bytes = None \<rparr> = 4000
   \<and> (\<exists>enc. utf8_encode (lit ''bitcoin $97,000.00 (+1.25% 24h) (coingecko) | some facts'')
               = Inr enc
            \<and> int (length enc)
              \<le> effective_budget \<lparr> body_query = Some (lit ''btc news''),
                                    body_mode = Some (lit ''search''),
                                    body_url = Some (lit ''''), body_max_bytes = None \<rparr>)"
proof -
  let ?body = "\<lparr> body_query = Some (lit ''btc news''), body_mode = Some (lit ''search''),
                 body_url = Some (lit ''''), body_max_bytes = None \<rparr>"
  have h1: "api_intel demo_world (demo_request ''btc news'' ''search'' '''' None)
     = IntelFacts (lit ''bitcoin $97,000.00 (+1.25% 24h) (coingecko) | some facts'')
         [lit ''coingecko.com'', lit ''x.com'', lit ''y.org'', lit ''y.org''] 1700000000"
    by (simp add: api_intel_def effective_budget_def intel_search_def intel_assemble_def
        intel_sources_def get_or_empty_def truncate_utf8_def encodable_def is_surrogate_def
        utf8_char_def demo_defs run_defs)
  have h2: "json_body (demo_request ''btc news'' ''search'' '''' None) = Some ?body"
    by (simp add: demo_request_def)
  have h3: "0 \<le> effective_budget ?body"
    by (simp add: effective_budget_def)
  have "body_mode ?body \<noteq> Some (lit ''price'')"
    by (simp add: lit_def)
  moreover have "\<forall>pp. intel_assemble demo_world
                       (strip (tables demo_world) (get_or_empty (body_query ?body)))
                     \<noteq> Inr (NoCandidates pp)"
    by (simp add: intel_assemble_def get_or_empty_def demo_defs run_defs)
  ultimately have h4: "body_mode ?body = Some (lit ''browse'')
         \<or> (body_mode ?body \<noteq> Some (lit ''price'')
             \<and> (\<forall>pp. intel_assemble demo_world
                         (strip (tables demo_world) (get_or_empty (body_query ?body)))
                       \<noteq> Inr (NoCandidates pp)))"
    by blast
  have h5: "body_max_bytes ?body = None"
    by simp
  from intel_facts_within_budget[OF h1 h2 h3 h4] h1 h5 show ?thesis
    by blast
qed

section \<open>Claims about the merge\<close>




section \<open>Claims about the selection\<close>

text \<open>
  C4: for every candidate list and every reply string of the selector, each index of
  the selection that is parsed is at least 0 and below the number of candidates, and
  the selection has at most 5 entries. The selection is the first 5 of the in-range
  values of the reply's digit runs (or of the fallback when there is none): a value out
  of range is dropped, and what is not a digit belongs to no token. A selection is
  parsed exactly when \<open>int\<close> converts every digit run; otherwise \<open>int\<close> raises
  \<open>ValueError\<close> and there is no selection.
\<close>

theorem selection_bounds:
  "(\<forall>selection. select_indices T reply (length all_results) = Inr selection \<longrightarrow>
       (\<forall>i \<in> set selection. 0 \<le> i \<and> i < int (length all_results))
       \<and> length selection \<le> 5
       \<and> selection =
           take 5 (if filter (\<lambda>i. 0 \<le> i \<and> i < int (length all_results))
                        (map (digits_value T) (findall_digits T reply)) = []
                   then map int [0..<min 4 (length all_results)]
                   else filter (\<lambda>i. 0 \<le> i \<and> i < int (length all_results))
                          (map (digits_value T) (findall_digits T reply))))
   \<and> ((\<exists>selection. select_indices T reply (length all_results) = Inr selection)
        = convertible T reply)
   \<and> ((select_indices T reply (length all_results) = Inl ValueError)
        = (\<not> convertible T reply))
   \<and> (\<forall>tok \<in> set (findall_digits T reply). tok \<noteq> [] \<and> (\<forall>c \<in> set tok. py_decimal T c \<noteq> None))
   \<and> concat (findall_digits T reply) = filter (\<lambda>c. py_decimal T c \<noteq> None) reply"
proof (intro conjI allI impI)
  fix selection
  assume sel: "select_indices T reply (length all_results) = Inr selection"
  show "\<forall>i \<in> set selection. 0 \<le> i \<and> i < int (length all_results)"
    using select_indices_in_range[OF sel] by blast
  have conv: "convertible T reply"
  proof (rule ccontr)
    assume "\<not> convertible T reply"
    then have "select_indices T reply (length all_results) = Inl ValueError"
      by (simp only: select_indices_closed if_False)
    with sel show False by simp
  qed
  from conv sel
  show "selection =
           take 5 (if filter (\<lambda>i. 0 \<le> i \<and> i < int (length all_results))
                        (map (digits_value T) (findall_digits T reply)) = []
                   then map int [0..<min 4 (length all_results)]
                   else filter (\<lambda>i. 0 \<le> i \<and> i < int (length all_results))
                          (map (digits_value T) (findall_digits T reply)))"
    by (simp only: select_indices_closed if_True sum.inject)
  then have "length selection = length (take 5 (if filter (\<lambda>i. 0 \<le> i \<and> i < int (length all_results))
                        (map (digits_value T) (findall_digits T reply)) = []
                   then map int [0..<min 4 (length all_results)]
                   else filter (\<lambda>i. 0 \<le> i \<and> i < int (length all_results))
                          (map (digits_value T) (findall_digits T reply))))"
    by (rule arg_cong)
  then show "length selection \<le> 5"
    by (simp only: length_take min.cobounded2)
next
  show "(\<exists>selection. select_indices T reply (length all_results) = Inr selection)
        = convertible T reply"
    by (cases "convertible T reply") (simp_all only: select_indices_closed if_True if_False, simp_all)
  show "(select_indices T reply (length all_results) = Inl ValueError)
        = (\<not> convertible T reply)"
    by (cases "convertible T reply") (simp_all only: select_indices_closed if_True if_False, simp_all)
  show "\<forall>tok \<in> set (findall_digits T reply).
          tok \<noteq> [] \<and> (\<forall>c \<in> set tok. py_decimal T c \<noteq> None)"
    using findall_from_tokens[of "[]" T reply] by (simp add: findall_digits_def)
  show "concat (findall_digits T reply) = filter (\<lambda>c. py_decimal T c \<noteq> None) reply"
    by (simp add: findall_digits_def findall_from_concat)
qed

theorem selection_bounds_witness:
  "select_indices ascii_tables (lit ''0,2,2,15,x'')
     (length (replicate 12 (demo_result ''T'' ''http://t/''))) = Inr [0, 2, 2]
   \<and> length [0, 2, 2 :: int] \<le> 5
   \<and> convertible ascii_tables (lit ''0,2,2,15,x'')
   \<and> concat (findall_digits ascii_tables (lit ''0,2,2,15,x''))
       = filter (\<lambda>c. py_decimal ascii_tables c \<noteq> None) (lit ''0,2,2,15,x'')"
proof -
  have "select_indices ascii_tables (lit ''0,2,2,15,x'')
          (length (replicate 12 (demo_result ''T'' ''http://t/''))) = Inr [0, 2, 2]"
    by (simp add: demo_defs run_defs)
  with selection_bounds[of ascii_tables "lit ''0,2,2,15,x''"
      "replicate 12 (demo_result ''T'' ''http://t/'')"]
  show ?thesis by blast
qed




section \<open>Claims about the scrape batch\<close>

text \<open>
  C6: the batch returns one outcome per selected URL, the \<open>i\<close>-th outcome being that of
  the \<open>i\<close>-th URL. A fault inside the fetch of one URL becomes the text
  \<open>Error scraping <url>: <fault>\<close> at its position (which the pipelines read as a
  failure), a fault of the task itself becomes an exception object at its position,
  and a page that was fetched gives its extracted text: the batch itself raises nothing,
  and an outcome depends on its own task only.
\<close>

theorem scrape_batch_isolation:
  "length (scrape_batch w scrape_urls) = length scrape_urls
   \<and> (\<forall>i < length scrape_urls.
         scrape_batch w scrape_urls ! i = scrape_url w i (scrape_urls ! i)
         \<and> (\<forall>e. fetch_task w i (scrape_urls ! i) = Ran (FetchFault e) \<longrightarrow>
                scrape_batch w scrape_urls ! i
                  = Returned (lit ''Error scraping '' @ scrape_urls ! i @ lit '': '' @ e)
                \<and> \<not> scrape_succeeded (scrape_batch w scrape_urls ! i))
         \<and> (\<forall>e. fetch_task w i (scrape_urls ! i) = TaskFault e \<longrightarrow>
                scrape_batch w scrape_urls ! i = Raised e
                \<and> \<not> scrape_succeeded (scrape_batch w scrape_urls ! i))
         \<and> (\<forall>c b. fetch_task w i (scrape_urls ! i) = Ran (Fetched c b) \<longrightarrow>
                scrape_batch w scrape_urls ! i = Returned (extract_text (tables w) c b)))"
proof (intro conjI allI impI)
  show "length (scrape_batch w scrape_urls) = length scrape_urls"
    by (simp add: scrape_batch_def scrape_from_length)
next
  fix i assume "i < length scrape_urls"
  then show "scrape_batch w scrape_urls ! i = scrape_url w i (scrape_urls ! i)"
    by (simp add: scrape_batch_def scrape_from_nth)
next
  fix i e
  assume "i < length scrape_urls" "fetch_task w i (scrape_urls ! i) = Ran (FetchFault e)"
  then show "scrape_batch w scrape_urls ! i
               = Returned (lit ''Error scraping '' @ scrape_urls ! i @ lit '': '' @ e)"
    by (simp add: scrape_batch_def scrape_from_nth scrape_url_def scrape_url_sync_def)
  then show "\<not> scrape_succeeded (scrape_batch w scrape_urls ! i)"
    by (simp add: scrape_succeeded_def lit_def)
next
  fix i e
  assume "i < length scrape_urls" "fetch_task w i (scrape_urls ! i) = TaskFault e"
  then show "scrape_batch w scrape_urls ! i = Raised e"
    by (simp add: scrape_batch_def scrape_from_nth scrape_url_def)
  then show "\<not> scrape_succeeded (scrape_batch w scrape_urls ! i)"
    by (simp add: scrape_succeeded_def)
next
  fix i c b
  assume "i < length scrape_urls" "fetch_task w i (scrape_urls ! i) = Ran (Fetched c b)"
  then show "scrape_batch w scrape_urls ! i = Returned (extract_text (tables w) c b)"
    by (simp add: scrape_batch_def scrape_from_nth scrape_url_def scrape_url_sync_def)
qed

theorem scrape_batch_isolation_witness:
  "fetch_task demo_world 2 (demo_urls ! 2) = Ran (FetchFault (lit ''timeout''))
   \<and> fetch_task demo_world 1 (demo_urls ! 1) = Ran (Fetched [] [demo_page])
   \<and> length (scrape_batch demo_world demo_urls) = length demo_urls
   \<and> scrape_batch demo_world demo_urls ! 2
       = Returned (lit ''Error scraping '' @ demo_urls ! 2 @ lit '': '' @ lit ''timeout'')
   \<and> \<not> scrape_succeeded (scrape_batch demo_world demo_urls ! 2)
   \<and> scrape_batch demo_world demo_urls ! 1
       = Returned (extract_text (tables demo_world) [] [demo_page])
   \<and> fetch_task (demo_world\<lparr>fetch_task := \<lambda>i u. TaskFault IndexError\<rparr>) 0 (demo_urls ! 0)
       = TaskFault IndexError
   \<and> scrape_batch (demo_world\<lparr>fetch_task := \<lambda>i u. TaskFault IndexError\<rparr>) demo_urls ! 0
       = Raised IndexError"
proof -
  have f2: "fetch_task demo_world 2 (demo_urls ! 2) = Ran (FetchFault (lit ''timeout''))"
    and f1: "fetch_task demo_world 1 (demo_urls ! 1) = Ran (Fetched [] [demo_page])"
    and f0: "fetch_task (demo_world\<lparr>fetch_task := \<lambda>i u. TaskFault IndexError\<rparr>) 0 (demo_urls ! 0)
             = TaskFault IndexError"
    by (simp_all add: demo_world_def demo_urls_def lit_def)
  have i: "2 < length demo_urls" "1 < length demo_urls" "0 < length demo_urls"
    by (simp_all add: demo_urls_def)
  from scrape_batch_isolation[of demo_world demo_urls] i(1) f2
  have "scrape_batch demo_world demo_urls ! 2
        = Returned (lit ''Error scraping '' @ demo_urls ! 2 @ lit '': '' @ lit ''timeout'')
        \<and> \<not> scrape_succeeded (scrape_batch demo_world demo_urls ! 2)"
    by blast
  moreover from scrape_batch_isolation[of demo_world demo_urls] i(2) f1
  have "scrape_batch demo_world demo_urls ! 1
        = Returned (extract_text (tables demo_world) [] [demo_page])"
    by blast
  moreover from scrape_batch_isolation[of demo_world demo_urls]
  have "length (scrape_batch demo_world demo_urls) = length demo_urls"
    by blast
  moreover
  from scrape_batch_isolation[of "demo_world\<lparr>fetch_task := \<lambda>i u. TaskFault IndexError\<rparr>"
      demo_urls] i(3) f0
  have "scrape_batch (demo_world\<lparr>fetch_task := \<lambda>i u. TaskFault IndexError\<rparr>) demo_urls ! 0
        = Raised IndexError"
    by blast
  ultimately show ?thesis using f0 f1 f2 by blast
qed

section \<open>Claims about the assembled context\<close>




section \<open>Claims about the truncator, continued\<close>

text \<open>
  C8, as stated, fails for a negative budget: each application drops one more byte.
\<close>

theorem truncate_utf8_idempotent_counterexample:
  "truncate_utf8 (lit ''abc'') (- 1) = Inr (lit ''ab'')
   \<and> truncate_utf8 (lit ''ab'') (- 1) = Inr (lit ''a'')
   \<and> lit ''a'' \<noteq> lit ''ab''"
  by (simp add: truncate_utf8_def lit_def encodable_def is_surrogate_def utf8_char_def
      slice_to_def)

text \<open>
  C8 (amended): for every text \<open>t\<close> and every \<open>n \<ge> 0\<close>, truncating the result
  of \<open>_truncate_utf8(t, n)\<close> to \<open>n\<close> again gives the same outcome (the same text,
  or the same error when \<open>t\<close> cannot be encoded).
\<close>

theorem truncate_utf8_idempotent:
  assumes "0 \<le> n"
  shows "(case truncate_utf8 t n of Inl e \<Rightarrow> Inl e | Inr t' \<Rightarrow> truncate_utf8 t' n)
         = truncate_utf8 t n"
proof (cases "utf8_encode t")
  case (Inl e)
  then show ?thesis by (simp add: truncate_utf8_def)
next
  case (Inr enc)
  let ?out = "fit_prefix (nat n) t"
  from fit_prefix_encode[OF Inr, of "nat n"] obtain m
    where m: "m \<le> nat n" "utf8_encode ?out = Inr (take m enc)"
    by blast
  from m(1) assms have "int (length (take m enc)) \<le> n"
    by (simp add: min_def le_nat_iff)
  with m(2) have "truncate_utf8 ?out n = Inr ?out"
    by (simp add: truncate_utf8_def)
  then show ?thesis
    using truncate_utf8_fit[OF Inr assms] by simp
qed


theorem truncate_utf8_idempotent_witness:
  "(0::int) \<le> 4
   \<and> (case truncate_utf8 (lit ''ab'' @ [0x20AC]) 4 of
          Inl e \<Rightarrow> Inl e
        | Inr t' \<Rightarrow> truncate_utf8 t' 4) = truncate_utf8 (lit ''ab'' @ [0x20AC]) 4"
proof -
  have h: "(0::int) \<le> 4" by simp
  from truncate_utf8_idempotent[OF h] h show ?thesis by blast
qed

section \<open>Claims about the failure marker\<close>

text \<open>
  C9: an outcome counts as scraped when it is a text that does not start with
  \<open>Error\<close> and is longer than 50 characters, and by nothing else. So when the fetch of
  a page succeeded and the text extracted from it starts with \<open>Error\<close>, the outcome is
  that text (not a marker of the \<open>except\<close> branch) and yet: the loops of \<open>/ask\<close> and of
  the search mode of \<open>/api/intel\<close> pass over it and add no block, and the browse mode of
  \<open>/api/intel\<close> answers \<open>scrape failed\<close> for it.
\<close>

theorem error_text_is_failure:
  assumes "fetch_task w i u = Ran (Fetched content_texts body_texts)"
    and "prefix (lit ''Error'') (extract_text (tables w) content_texts body_texts)"
  shows "scrape_url w i u = Returned (extract_text (tables w) content_texts body_texts)
         \<and> \<not> scrape_succeeded (scrape_url w i u)
         \<and> (\<forall>t. scrape_succeeded (Returned t) = (\<not> prefix (lit ''Error'') t \<and> 50 < length t))
         \<and> ask_scraped_loop rs picked urls j (scrape_url w i u # pages) acc
             = ask_scraped_loop rs picked urls (Suc j) pages acc
         \<and> intel_scraped_loop rs picked urls j (scrape_url w i u # pages) acc
             = intel_scraped_loop rs picked urls (Suc j) pages acc
         \<and> scraped_blocks label rs (k # ks) (scrape_url w i u # pages)
             = scraped_blocks label rs ks pages
         \<and> (i = 0 \<and> x_api_key request = Some (canister_api_key w)
              \<and> json_body request = Some body \<and> body_mode body = Some (lit ''browse'')
              \<and> strip (tables w) (get_or_empty (body_query body)) \<noteq> []
              \<and> body_url body = Some u \<and> u \<noteq> [] \<longrightarrow>
            api_intel w request
              = IntelFailure 200
                  (Message (lit ''scrape failed: ''
                            @ take 200 (extract_text (tables w) content_texts body_texts))))"
proof -
  let ?text = "extract_text (tables w) content_texts body_texts"
  from assms(1) have out: "scrape_url w i u = Returned ?text"
    by (simp add: scrape_url_def scrape_url_sync_def)
  have browse: "lit ''browse'' \<noteq> lit ''price''"
    by (simp add: lit_def)
  from out assms(2) have "\<not> scrape_succeeded (scrape_url w i u)"
    by (simp add: scrape_succeeded_def)
  moreover have "\<forall>t. scrape_succeeded (Returned t) = (\<not> prefix (lit ''Error'') t \<and> 50 < length t)"
    by (simp add: scrape_succeeded_def)
  moreover from out assms(2)
  have "ask_scraped_loop rs picked urls j (scrape_url w i u # pages) acc
        = ask_scraped_loop rs picked urls (Suc j) pages acc"
    by simp
  moreover from out assms(2)
  have "intel_scraped_loop rs picked urls j (scrape_url w i u # pages) acc
        = intel_scraped_loop rs picked urls (Suc j) pages acc"
    by simp
  moreover from out assms(2)
  have "scraped_blocks label rs (k # ks) (scrape_url w i u # pages)
        = scraped_blocks label rs ks pages"
    by (simp add: scraped_blocks_Cons scrape_succeeded_def)
  moreover have "i = 0 \<and> x_api_key request = Some (canister_api_key w)
              \<and> json_body request = Some body \<and> body_mode body = Some (lit ''browse'')
              \<and> strip (tables w) (get_or_empty (body_query body)) \<noteq> []
              \<and> body_url body = Some u \<and> u \<noteq> [] \<longrightarrow>
            api_intel w request
              = IntelFailure 200 (Message (lit ''scrape failed: '' @ take 200 ?text))"
    using out assms(2) browse
    by (auto simp add: api_intel_def intel_browse_def Let_def get_or_empty_def)
  ultimately show ?thesis using out by blast
qed

theorem error_text_is_failure_witness:
  "fetch_task demo_world 0 (lit ''http://x.com/1'') = Ran (Fetched [demo_error_page] [])
   \<and> prefix (lit ''Error'') (extract_text (tables demo_world) [demo_error_page] [])
   \<and> 50 < length (extract_text (tables demo_world) [demo_error_page] [])
   \<and> scrape_url demo_world 0 (lit ''http://x.com/1'')
       = Returned (extract_text (tables demo_world) [demo_error_page] [])
   \<and> \<not> scrape_succeeded (scrape_url demo_world 0 (lit ''http://x.com/1''))
   \<and> api_intel demo_world (demo_request ''q'' ''browse'' ''http://x.com/1'' None)
       = IntelFailure 200
           (Message (lit ''scrape failed: ''
                     @ take 200 (extract_text (tables demo_world) [demo_error_page] [])))"
proof -
  have h1: "fetch_task demo_world 0 (lit ''http://x.com/1'') = Ran (Fetched [demo_error_page] [])"
    by (simp add: demo_world_def lit_def)
  have h2: "prefix (lit ''Error'') (extract_text (tables demo_world) [demo_error_page] [])"
    and h3: "50 < length (extract_text (tables demo_world) [demo_error_page] [])"
    by (simp_all add: demo_defs run_defs)
  let ?body = "\<lparr> body_query = Some (lit ''q''), body_mode = Some (lit ''browse''),
                 body_url = Some (lit ''http://x.com/1''), body_max_bytes = None \<rparr>"
  have r: "(0::nat) = 0"
    "x_api_key (demo_request ''q'' ''browse'' ''http://x.com/1'' None)
       = Some (canister_api_key demo_world)"
    "json_body (demo_request ''q'' ''browse'' ''http://x.com/1'' None) = Some ?body"
    "body_mode ?body = Some (lit ''browse'')"
    "strip (tables demo_world) (get_or_empty (body_query ?body)) \<noteq> []"
    "body_url ?body = Some (lit ''http://x.com/1'')"
    "lit ''http://x.com/1'' \<noteq> []"
    by (simp_all add: demo_defs run_defs get_or_empty_def)
  from error_text_is_failure[OF h1 h2, of "[]" "[]" "[]" 0 "[]" "[]" ask_label 0 "[]"
      "demo_request ''q'' ''browse'' ''http://x.com/1'' None" ?body] r
  have "scrape_url demo_world 0 (lit ''http://x.com/1'')
       = Returned (extract_text (tables demo_world) [demo_error_page] [])
   \<and> \<not> scrape_succeeded (scrape_url demo_world 0 (lit ''http://x.com/1''))
   \<and> api_intel demo_world (demo_request ''q'' ''browse'' ''http://x.com/1'' None)
       = IntelFailure 200
           (Message (lit ''scrape failed: ''
                     @ take 200 (extract_text (tables demo_world) [demo_error_page] [])))"
    by blast
  with h1 h2 h3 show ?thesis by blast
qed

section \<open>Claims about the reported sources\<close>

text \<open>
  C10: a full \<open>/ask\<close> response reports as sources the URLs of the selection and as
  \<open>scraped_count\<close> their number; a search-mode \<open>/api/intel\<close> response that had
  candidates reports the host of each URL of the selection, after \<open>coingecko.com\<close>
  when a price text was put in front of the facts. Neither depends on what the scrapes
  gave: with any other outcomes of the fetches, a response of the same kind reports the
  same sources. A selection that repeats an index repeats the host.
\<close>

theorem sources_are_the_selection:
  "(ask w q = AskAnswer answer sources scraped_count \<longrightarrow>
      scraped_count = length sources
      \<and> (\<exists>d reply selection all_results.
            ddg_search w q 10 = Returned d
            \<and> all_results = merge_results d (google_news_rss w q 8)
            \<and> chutes_chat w SelectCall (ask_pick_prompt q all_results) = Returned (Some reply)
            \<and> select_indices (tables w) reply (length all_results) = Inr selection
            \<and> sources = map (\<lambda>k. url (all_results ! nat k)) selection)
      \<and> (\<forall>ft a' s' n'. ask (w\<lparr>fetch_task := ft\<rparr>) q = AskAnswer a' s' n' \<longrightarrow>
             s' = sources \<and> n' = scraped_count))
   \<and> (intel_search w query max_bytes = IntelFacts f s t \<longrightarrow>
      ((\<exists>pp. intel_assemble w query = Inr (NoCandidates pp)) \<and> s = []
       \<or> (\<exists>d reply selection all_results.
             ddg_search w query 10 = Returned d
             \<and> all_results = merge_results d (google_news_rss w query 8)
             \<and> all_results \<noteq> []
             \<and> chutes_chat w SelectCall (intel_pick_prompt query all_results)
                 = Returned (Some reply)
             \<and> select_indices (tables w) reply (length all_results) = Inr selection
             \<and> s = (if intel_price_prefix w query \<noteq> [] then [lit ''coingecko.com''] else [])
                   @ map (\<lambda>k. host_of (url (all_results ! nat k))) selection))
      \<and> (\<forall>ft f' s' t'. intel_search (w\<lparr>fetch_task := ft\<rparr>) query max_bytes
                           = IntelFacts f' s' t' \<longrightarrow> s' = s))
   \<and> (api_intel w request = IntelFacts f s t \<and> json_body request = Some body
        \<and> body_mode body \<noteq> Some (lit ''price'') \<and> body_mode body \<noteq> Some (lit ''browse'') \<longrightarrow>
      intel_search w (strip (tables w) (get_or_empty (body_query body))) (effective_budget body)
        = IntelFacts f s t)"
proof (intro conjI impI)
  assume a: "ask w q = AskAnswer answer sources scraped_count"
  from ask_AskAnswer[OF a] obtain p rs sc where
    asm: "ask_assemble w q = Inr (Assembled p rs sources sc)"
    and n: "scraped_count = length sources"
    by blast
  show "scraped_count = length sources" by (rule n)
  from ask_assemble_Assembled[OF asm]
  show "\<exists>d reply selection all_results.
            ddg_search w q 10 = Returned d
            \<and> all_results = merge_results d (google_news_rss w q 8)
            \<and> chutes_chat w SelectCall (ask_pick_prompt q all_results) = Returned (Some reply)
            \<and> select_indices (tables w) reply (length all_results) = Inr selection
            \<and> sources = map (\<lambda>k. url (all_results ! nat k)) selection"
    by blast
  show "\<forall>ft a' s' n'. ask (w\<lparr>fetch_task := ft\<rparr>) q = AskAnswer a' s' n' \<longrightarrow>
             s' = sources \<and> n' = scraped_count"
  proof (intro allI impI)
    fix ft a' s' n'
    assume "ask (w\<lparr>fetch_task := ft\<rparr>) q = AskAnswer a' s' n'"
    from ask_AskAnswer[OF this] obtain p' rs' sc' where
      "ask_assemble (w\<lparr>fetch_task := ft\<rparr>) q = Inr (Assembled p' rs' s' sc')"
      and n': "n' = length s'"
      by blast
    from update_fetch_task_assemble[OF asm this(1)] n n'
    show "s' = sources \<and> n' = scraped_count" by simp
  qed
next
  assume a: "intel_search w query max_bytes = IntelFacts f s t"
  from intel_search_IntelFacts[OF a]
  consider pp where "intel_assemble w query = Inr (NoCandidates pp)" "s = []"
    | pp rs urls sc where "intel_assemble w query = Inr (Assembled pp rs urls sc)"
        "s = intel_sources urls pp"
    by blast
  note kinds = this
  from kinds
  show "(\<exists>pp. intel_assemble w query = Inr (NoCandidates pp)) \<and> s = []
       \<or> (\<exists>d reply selection all_results.
             ddg_search w query 10 = Returned d
             \<and> all_results = merge_results d (google_news_rss w query 8)
             \<and> all_results \<noteq> []
             \<and> chutes_chat w SelectCall (intel_pick_prompt query all_results)
                 = Returned (Some reply)
             \<and> select_indices (tables w) reply (length all_results) = Inr selection
             \<and> s = (if intel_price_prefix w query \<noteq> [] then [lit ''coingecko.com''] else [])
                   @ map (\<lambda>k. host_of (url (all_results ! nat k))) selection)"
  proof cases
    case 1
    then show ?thesis by blast
  next
    case 2
    from intel_assemble_Assembled[OF 2(1)] obtain d reply selection where
      "ddg_search w query 10 = Returned d" "rs = merge_results d (google_news_rss w query 8)"
      "rs \<noteq> []"
      "chutes_chat w SelectCall (intel_pick_prompt query rs) = Returned (Some reply)"
      "select_indices (tables w) reply (length rs) = Inr selection"
      "pp = intel_price_prefix w query"
      "urls = map (\<lambda>k. url (rs ! nat k)) selection"
      by blast
    moreover from this(6,7) 2(2)
    have "s = (if intel_price_prefix w query \<noteq> [] then [lit ''coingecko.com''] else [])
              @ map (\<lambda>k. host_of (url (rs ! nat k))) selection"
      by (simp add: intel_sources_map comp_def)
    ultimately show ?thesis by blast
  qed
  show "\<forall>ft f' s' t'. intel_search (w\<lparr>fetch_task := ft\<rparr>) query max_bytes
                         = IntelFacts f' s' t' \<longrightarrow> s' = s"
  proof (intro allI impI)
    fix ft f' s' t'
    assume "intel_search (w\<lparr>fetch_task := ft\<rparr>) query max_bytes = IntelFacts f' s' t'"
    from intel_search_IntelFacts[OF this]
    consider pp' where "intel_assemble (w\<lparr>fetch_task := ft\<rparr>) query = Inr (NoCandidates pp')"
        "s' = []"
      | pp' rs' urls' sc' where
        "intel_assemble (w\<lparr>fetch_task := ft\<rparr>) query = Inr (Assembled pp' rs' urls' sc')"
        "s' = intel_sources urls' pp'"
      by blast
    then show "s' = s"
    proof cases
      case 1
      from 1(1) have "intel_assemble w query = Inr (NoCandidates pp')"
        by (simp add: update_fetch_task_no_candidates)
      with kinds 1(2) show ?thesis by (cases) simp_all
    next
      case other: 2
      from kinds show ?thesis
      proof cases
        case 1
        then have "intel_assemble (w\<lparr>fetch_task := ft\<rparr>) query = Inr (NoCandidates pp)"
          by (simp add: update_fetch_task_no_candidates)
        with other(1) show ?thesis by simp
      next
        case 2
        from update_fetch_task_intel_assemble[OF 2(1) other(1)] 2(2) other(2)
        show ?thesis by simp
      qed
    qed
  qed
next
  assume "api_intel w request = IntelFacts f s t \<and> json_body request = Some body
        \<and> body_mode body \<noteq> Some (lit ''price'') \<and> body_mode body \<noteq> Some (lit ''browse'')"
  then show "intel_search w (strip (tables w) (get_or_empty (body_query body)))
               (effective_budget body) = IntelFacts f s t"
    using api_intel_IntelFacts[of w request f s t body] by simp
qed

theorem sources_are_the_selection_witness:
  "ask demo_world demo_query = AskAnswer (Some (lit ''an answer'')) demo_urls 3
   \<and> \<not> scrape_succeeded (scrape_url demo_world 0 (demo_urls ! 0))
   \<and> \<not> scrape_succeeded (scrape_url demo_world 2 (demo_urls ! 2))
   \<and> (3::nat) = length demo_urls
   \<and> (\<exists>d reply selection all_results.
         ddg_search demo_world demo_query 10 = Returned d
         \<and> all_results = merge_results d (google_news_rss demo_world demo_query 8)
         \<and> chutes_chat demo_world SelectCall (ask_pick_prompt demo_query all_results)
             = Returned (Some reply)
         \<and> select_indices (tables demo_world) reply (length all_results) = Inr selection
         \<and> demo_urls = map (\<lambda>k. url (all_results ! nat k)) selection)
   \<and> ask (demo_world\<lparr>fetch_task := \<lambda>i u. TaskFault IndexError\<rparr>) demo_query
       = AskAnswer (Some (lit ''an answer'')) demo_urls 3
   \<and> intel_search demo_world demo_query 4000
       = IntelFacts (lit ''bitcoin $97,000.00 (+1.25% 24h) (coingecko) | some facts'')
           [lit ''coingecko.com'', lit ''x.com'', lit ''y.org'', lit ''y.org''] 1700000000
   \<and> (\<exists>d reply selection all_results.
         ddg_search demo_world demo_query 10 = Returned d
         \<and> all_results = merge_results d (google_news_rss demo_world demo_query 8)
         \<and> all_results \<noteq> []
         \<and> chutes_chat demo_world SelectCall (intel_pick_prompt demo_query all_results)
             = Returned (Some reply)
         \<and> select_indices (tables demo_world) reply (length all_results) = Inr selection
         \<and> [lit ''coingecko.com'', lit ''x.com'', lit ''y.org'', lit ''y.org'']
             = (if intel_price_prefix demo_world demo_query \<noteq> []
                then [lit ''coingecko.com''] else [])
               @ map (\<lambda>k. host_of (url (all_results ! nat k))) selection)
   \<and> api_intel demo_world (demo_request ''btc news'' ''search'' '''' None)
       = IntelFacts (lit ''bitcoin $97,000.00 (+1.25% 24h) (coingecko) | some facts'')
           [lit ''coingecko.com'', lit ''x.com'', lit ''y.org'', lit ''y.org''] 1700000000
   \<and> intel_search demo_world
         (strip (tables demo_world)
            (get_or_empty (body_query \<lparr> body_query = Some (lit ''btc news''),
                                         body_mode = Some (lit ''search''),
                                         body_url = Some (lit ''''),
                                         body_max_bytes = None \<rparr>)))
         (effective_budget \<lparr> body_query = Some (lit ''btc news''),
                              body_mode = Some (lit ''search''), body_url = Some (lit ''''),
                              body_max_bytes = None \<rparr>)
       = IntelFacts (lit ''bitcoin $97,000.00 (+1.25% 24h) (coingecko) | some facts'')
           [lit ''coingecko.com'', lit ''x.com'', lit ''y.org'', lit ''y.org''] 1700000000"
proof -
  let ?body = "\<lparr> body_query = Some (lit ''btc news''), body_mode = Some (lit ''search''),
                 body_url = Some (lit ''''), body_max_bytes = None \<rparr>"
  have a: "ask demo_world demo_query = AskAnswer (Some (lit ''an answer'')) demo_urls 3"
    by (simp add: ask_def ask_assemble_def demo_defs run_defs)
  have a': "ask (demo_world\<lparr>fetch_task := \<lambda>i u. TaskFault IndexError\<rparr>) demo_query
            = AskAnswer (Some (lit ''an answer'')) demo_urls 3"
    by (simp add: ask_def ask_assemble_def demo_defs run_defs)
  have b: "intel_search demo_world demo_query 4000
       = IntelFacts (lit ''bitcoin $97,000.00 (+1.25% 24h) (coingecko) | some facts'')
           [lit ''coingecko.com'', lit ''x.com'', lit ''y.org'', lit ''y.org''] 1700000000"
    by (simp add: intel_search_def intel_assemble_def intel_sources_def truncate_utf8_def
        encodable_def is_surrogate_def utf8_char_def demo_defs run_defs)
  have c: "\<not> scrape_succeeded (scrape_url demo_world 0 (demo_urls ! 0))"
    "\<not> scrape_succeeded (scrape_url demo_world 2 (demo_urls ! 2))"
    by (simp_all add: scrape_succeeded_def demo_defs run_defs)
  have nc: "\<not> (\<exists>pp. intel_assemble demo_world demo_query = Inr (NoCandidates pp))"
    by (simp add: intel_assemble_def demo_defs run_defs)
  have e: "api_intel demo_world (demo_request ''btc news'' ''search'' '''' None)
       = IntelFacts (lit ''bitcoin $97,000.00 (+1.25% 24h) (coingecko) | some facts'')
           [lit ''coingecko.com'', lit ''x.com'', lit ''y.org'', lit ''y.org''] 1700000000"
    by (simp add: api_intel_def effective_budget_def intel_search_def intel_assemble_def
        intel_sources_def get_or_empty_def truncate_utf8_def encodable_def is_surrogate_def
        utf8_char_def demo_defs run_defs)
  have r: "json_body (demo_request ''btc news'' ''search'' '''' None) = Some ?body"
    "body_mode ?body \<noteq> Some (lit ''price'')" "body_mode ?body \<noteq> Some (lit ''browse'')"
    by (simp_all add: demo_request_def lit_def)
  note inst = sources_are_the_selection[where w = demo_world and q = demo_query
      and answer = "Some (lit ''an answer'')" and sources = demo_urls and scraped_count = 3
      and query = demo_query and max_bytes = 4000
      and f = "lit ''bitcoin $97,000.00 (+1.25% 24h) (coingecko) | some facts''"
      and s = "[lit ''coingecko.com'', lit ''x.com'', lit ''y.org'', lit ''y.org'']"
      and t = 1700000000
      and request = "demo_request ''btc news'' ''search'' '''' None" and body = ?body]
  from inst a a' b c nc e r show ?thesis
    by (intro conjI) blast+
qed

end
